theory Spec2Isabelle
  imports Main "HOL-Library.Sublist"
begin

section \<open>Catalog data\<close>

text \<open>
  A product document of the \<open>products\<close> collection, with the fields that
  \<open>functions/index.js\<close> and \<open>js/cart.js\<close> read. Prices are integer cents,
  \<open>inventory = -1\<close> is the sentinel for unlimited stock. A missing \<open>images\<close>
  field behaves like the empty list in every place the code reads it; a missing
  \<open>digitalFileUrl\<close> is \<open>None\<close>.
\<close>

record product =
  name :: string
  price :: int
  category :: string
  inventory :: int
  isActive :: bool
  images :: "string list"
  digitalFileUrl :: "string option"

text \<open>The \<open>products\<close> collection: document id to document.\<close>

type_synonym catalog = "string \<rightharpoonup> product"

section \<open>Calls that may throw\<close>

text \<open>A call throws, or returns a value.\<close>

datatype 'a completion = Throws | Returns 'a

text \<open>
  \<open>db.collection("products").doc(id).get()\<close> as the Order Validator meets it.
  For an id it answers with the document (\<open>Returns (Some p)\<close>), answers that
  there is none (\<open>Returns None\<close>, the snapshot's \<open>exists\<close> is false), or
  throws: \<open>doc\<close> refuses the id (one with a slash in it, for instance), or
  the read fails.
\<close>

type_synonym catalog_reads = "string \<Rightarrow> product option completion"

section \<open>Decimal numerals\<close>

text \<open>
  The decimal numeral of an integer, with a leading minus sign. It is what a
  template literal prints for an integer that is exact as a JavaScript number
  and below \<open>10^21\<close> in magnitude; larger numbers are printed in exponent
  form. The handler below therefore takes the printing of numbers as a
  parameter, and the numerals here serve the examples.
\<close>

definition digit_char :: "nat \<Rightarrow> char" where
  "digit_char d = ''0123456789'' ! d"

fun string_of_nat :: "nat \<Rightarrow> string" where
  "string_of_nat n =
     (if n < 10 then [digit_char n]
      else string_of_nat (n div 10) @ [digit_char (n mod 10)])"

declare string_of_nat.simps [simp del]

definition decimal :: "int \<Rightarrow> string" where
  "decimal i =
     (if i < 0 then CHR ''-'' # string_of_nat (nat (- i)) else string_of_nat (nat i))"

section \<open>createCheckoutSession\<close>

text \<open>
  One element of \<open>req.body.items\<close> that is not \<open>null\<close>. The handler reads
  \<open>productId\<close> and \<open>quantity\<close> only; \<open>sent_price\<close> and \<open>sent_name\<close>
  stand for \<open>price\<close> and \<open>name\<close> properties that a client may put on the
  item as well. A field that is absent is \<open>None\<close>; an element that is a
  number, a string or a boolean has no fields.
\<close>

record checkout_item =
  productId :: "string option"
  quantity :: "int option"
  sent_price :: "int option"
  sent_name :: "string option"

text \<open>
  The request body. \<open>items = None\<close> is a body whose \<open>items\<close> is missing or
  is not an array. An element \<open>None\<close> of the array is \<open>null\<close>, on which
  reading \<open>item.productId\<close> throws.
\<close>

record checkout_request =
  items :: "checkout_item option list option"
  successUrl :: "string option"
  cancelUrl :: "string option"

record line_item =
  currency :: string
  product_name :: string
  product_images :: "string list"
  firebaseProductId :: string
  unit_amount :: int
  li_quantity :: int

record order_item =
  oi_productId :: string
  oi_name :: string
  oi_price :: int
  oi_quantity :: int
  oi_category :: string

record session_config =
  payment_method_types :: "string list"
  line_items :: "line_item list"
  mode :: string
  success_url :: string
  cancel_url :: string
  billing_address_collection :: string
  metadata_orderItems :: "order_item list"
  shipping_address_collection :: "string list option"

datatype http_body =
    Error_json string
  | Session_json string
  | Received_json
  | Text_body string

record response =
  status :: nat
  body :: http_body

text \<open>
  What one run of the handler did: the response it sent, the product ids it
  asked the catalog for (in order, the one whose read threw included), and the
  session configuration it handed to the payment provider, if it got that far.
\<close>

record checkout_run =
  sent :: response
  fetched :: "string list"
  requested :: "session_config option"

text \<open>JavaScript truthiness of an optional string: absent and \<open>""\<close> are falsy.\<close>

definition falsy_string :: "string option \<Rightarrow> bool" where
  "falsy_string s = (case s of None \<Rightarrow> True | Some t \<Rightarrow> t = [])"

text \<open>
  The guard \<open>!item.productId || !item.quantity || item.quantity < 1\<close>:
  an absent field is \<open>undefined\<close>, the number 0 is falsy.
\<close>

definition invalid_item :: "checkout_item \<Rightarrow> bool" where
  "invalid_item item =
     (falsy_string (productId item) \<or>
      (case quantity item of None \<Rightarrow> True | Some q \<Rightarrow> q = 0 \<or> q < 1))"

definition make_line_item :: "string \<Rightarrow> int \<Rightarrow> product \<Rightarrow> line_item" where
  "make_line_item pid q p =
     \<lparr> currency = ''usd'',
       product_name = name p,
       product_images = (case images p of [] \<Rightarrow> [] | i # _ \<Rightarrow> [i]),
       firebaseProductId = pid,
       unit_amount = price p,
       li_quantity = q \<rparr>"

definition make_order_item :: "string \<Rightarrow> int \<Rightarrow> product \<Rightarrow> order_item" where
  "make_order_item pid q p =
     \<lparr> oi_productId = pid,
       oi_name = name p,
       oi_price = price p,
       oi_quantity = q,
       oi_category = category p \<rparr>"

text \<open>
  The \<open>for (const item of items)\<close> loop. It answers 400 with a message and
  stops, or an exception leaves it for the handler's \<open>catch\<close>, or it falls
  through with \<open>lineItems\<close>, \<open>orderItems\<close> and \<open>hasPhysical\<close>. The last
  component is the list of ids asked for so far. \<open>number_text\<close> is the text
  that the template literal prints for a number.
\<close>

datatype validation =
    Bad_request string "string list"
  | Exception "string list"
  | Validated "line_item list" "order_item list" bool "string list"

fun validate_items ::
  "(int \<Rightarrow> string) \<Rightarrow> catalog_reads \<Rightarrow> checkout_item option list \<Rightarrow> line_item list
     \<Rightarrow> order_item list \<Rightarrow> bool \<Rightarrow> string list \<Rightarrow> validation" where
  "validate_items number_text reads [] lineItems orderItems hasPhysical got =
     Validated lineItems orderItems hasPhysical got"
| "validate_items number_text reads (None # rest) lineItems orderItems hasPhysical got =
     Exception got"
| "validate_items number_text reads (Some item # rest) lineItems orderItems hasPhysical got =
     (if invalid_item item then Bad_request ''Invalid item data'' got
      else
        (case (productId item, quantity item) of
           (Some pid, Some q) \<Rightarrow>
             (case reads pid of
                Throws \<Rightarrow> Exception (got @ [pid])
              | Returns None \<Rightarrow> Bad_request (''Product not found: '' @ pid) (got @ [pid])
              | Returns (Some p) \<Rightarrow>
                  if \<not> isActive p then
                    Bad_request (name p @ '' is no longer available'') (got @ [pid])
                  else if category p = ''physical'' \<and> inventory p \<noteq> - 1
                          \<and> inventory p < q then
                    Bad_request
                      (name p @ '' only has '' @ number_text (inventory p)
                         @ '' left in stock'')
                      (got @ [pid])
                  else
                    validate_items number_text reads rest
                      (lineItems @ [make_line_item pid q p])
                      (orderItems @ [make_order_item pid q p])
                      (hasPhysical \<or> category p = ''physical'')
                      (got @ [pid]))
         | _ \<Rightarrow> Bad_request ''Invalid item data'' got))"

definition build_session_config ::
  "checkout_request \<Rightarrow> line_item list \<Rightarrow> order_item list \<Rightarrow> bool \<Rightarrow> session_config" where
  "build_session_config req lineItems orderItems hasPhysical =
     \<lparr> payment_method_types = [''card''],
       line_items = lineItems,
       mode = ''payment'',
       success_url = (case successUrl req of Some u \<Rightarrow> u | None \<Rightarrow> []),
       cancel_url = (case cancelUrl req of Some u \<Rightarrow> u | None \<Rightarrow> []),
       billing_address_collection = ''required'',
       metadata_orderItems = orderItems,
       shipping_address_collection = (if hasPhysical then Some [''US''] else None) \<rparr>"

definition reply :: "nat \<Rightarrow> http_body \<Rightarrow> string list \<Rightarrow> session_config option \<Rightarrow> checkout_run" where
  "reply code b got cfg = \<lparr> sent = \<lparr> status = code, body = b \<rparr>, fetched = got, requested = cfg \<rparr>"

text \<open>
  The handler. \<open>stripe\<close> is \<open>stripe.checkout.sessions.create\<close>: it answers
  with the session URL, or throws (\<open>None\<close>). Every exception inside the
  \<open>try\<close> block, from the loop or from the payment provider, ends in the
  \<open>catch\<close>, which answers 500. \<open>req.body\<close> is an object, as the platform's
  body parser supplies it.
\<close>

definition createCheckoutSession ::
  "(int \<Rightarrow> string) \<Rightarrow> (session_config \<Rightarrow> string option) \<Rightarrow> catalog_reads \<Rightarrow> string
     \<Rightarrow> checkout_request \<Rightarrow> checkout_run" where
  "createCheckoutSession number_text stripe reads method req =
     (if method = ''OPTIONS'' then reply 204 (Text_body []) [] None
      else if method \<noteq> ''POST'' then reply 405 (Error_json ''Method not allowed'') [] None
      else
        (case items req of
           None \<Rightarrow> reply 400 (Error_json ''No items provided'') [] None
         | Some [] \<Rightarrow> reply 400 (Error_json ''No items provided'') [] None
         | Some its \<Rightarrow>
             if falsy_string (successUrl req) \<or> falsy_string (cancelUrl req) then
               reply 400 (Error_json ''Missing redirect URLs'') [] None
             else
               (case validate_items number_text reads its [] [] False [] of
                  Bad_request msg got \<Rightarrow> reply 400 (Error_json msg) got None
                | Exception got \<Rightarrow>
                    reply 500 (Error_json ''Failed to create checkout session'') got None
                | Validated lineItems orderItems hasPhysical got \<Rightarrow>
                    (let cfg = build_session_config req lineItems orderItems hasPhysical in
                     case stripe cfg of
                       None \<Rightarrow>
                         reply 500 (Error_json ''Failed to create checkout session'') got (Some cfg)
                     | Some url \<Rightarrow> reply 200 (Session_json url) got (Some cfg)))))"

section \<open>Cart\<close>

text \<open>
  The product object that the shop page hands to \<open>Cart.addItem\<close>: the catalog
  document together with its document id.
\<close>

record shop_product = product +
  doc_id :: string

record cart_item =
  ci_productId :: string
  ci_name :: string
  ci_price :: int
  ci_quantity :: int
  ci_category :: string
  ci_image :: string

record cart =
  cart_items :: "cart_item list"
  updatedAt :: nat

text \<open>
  The text stored under the key \<open>eb_cart\<close>, classified by what
  \<open>JSON.parse\<close> does with it. It throws on \<open>Unparseable\<close> text. On
  \<open>Json c\<close>, the text that \<open>JSON.stringify\<close> wrote for the cart \<open>c\<close>, it
  returns \<open>c\<close>. On \<open>Json_other\<close>, text that parses to a value with no
  \<open>items\<close> array (\<open>null\<close>, \<open>{}\<close>, \<open>[]\<close>, a number), it returns that
  value, which is not a cart. The empty string belongs to \<open>Unparseable\<close>:
  \<open>getCart\<close> does not parse it (it is falsy) and returns the same empty cart
  as its \<open>catch\<close>. \<open>localStorage.getItem\<close> returns \<open>null\<close> (\<open>None\<close>) when
  there is no record. The lines of a stored \<open>items\<close> array are line objects.
\<close>

datatype stored_text = Unparseable | Json cart | Json_other

type_synonym localStorage = "stored_text option"

text \<open>What \<open>JSON.parse\<close> returns: a cart, or a value that is not one.\<close>

datatype parsed = Cart cart | Not_a_cart

fun JSON_parse :: "stored_text \<Rightarrow> parsed completion" where
  "JSON_parse Unparseable = Throws"
| "JSON_parse (Json c) = Returns (Cart c)"
| "JSON_parse Json_other = Returns Not_a_cart"

text \<open>\<open>try { body } catch { handler }\<close>.\<close>

fun try_catch :: "'a completion \<Rightarrow> 'a completion \<Rightarrow> 'a completion" where
  "try_catch Throws handler = handler"
| "try_catch (Returns v) handler = Returns v"

definition empty_cart :: "nat \<Rightarrow> cart" where
  "empty_cart now = \<lparr> cart_items = [], updatedAt = now \<rparr>"

text \<open>
  \<open>now\<close> is the value of \<open>Date.now()\<close> at the call. \<open>getCart\<close> returns
  what the text parses to, without looking at its shape.
\<close>

definition getCart :: "nat \<Rightarrow> localStorage \<Rightarrow> parsed completion" where
  "getCart now ls =
     try_catch
       (case ls of None \<Rightarrow> Returns (Cart (empty_cart now)) | Some data \<Rightarrow> JSON_parse data)
       (Returns (Cart (empty_cart now)))"

text \<open>
  \<open>saveCart\<close> stamps the cart and stores its JSON text. The redrawing of the
  badge and the drawer (\<open>updateUI\<close>, \<open>openDrawer\<close>) does not touch the stored
  cart and is left out.
\<close>

definition saveCart :: "nat \<Rightarrow> cart \<Rightarrow> localStorage" where
  "saveCart now c = Some (Json (c\<lparr> updatedAt := now \<rparr>))"

text \<open>
  \<open>items.find(i => i.productId === id)\<close> returns the first matching line, and
  the code then assigns to that line's \<open>quantity\<close>. On a value that is not
  a cart, \<open>cart.items.find\<close> and \<open>cart.items.filter\<close> throw a
  \<open>TypeError\<close>, which \<open>addItem\<close>, \<open>removeItem\<close> and \<open>updateQuantity\<close>
  do not catch.
\<close>

fun change_first :: "string \<Rightarrow> (int \<Rightarrow> int) \<Rightarrow> cart_item list \<Rightarrow> cart_item list" where
  "change_first p f [] = []"
| "change_first p f (i # rest) =
     (if ci_productId i = p then i\<lparr> ci_quantity := f (ci_quantity i) \<rparr> # rest
      else i # change_first p f rest)"

definition new_line :: "'a shop_product_scheme \<Rightarrow> int \<Rightarrow> cart_item" where
  "new_line p q =
     \<lparr> ci_productId = doc_id p,
       ci_name = name p,
       ci_price = price p,
       ci_quantity = q,
       ci_category = category p,
       ci_image = (case images p of [] \<Rightarrow> [] | i # _ \<Rightarrow> i) \<rparr>"

definition addItem :: "nat \<Rightarrow> 'a shop_product_scheme \<Rightarrow> int \<Rightarrow> localStorage \<Rightarrow> localStorage completion" where
  "addItem now p q ls =
     (case getCart now ls of
        Throws \<Rightarrow> Throws
      | Returns Not_a_cart \<Rightarrow> Throws
      | Returns (Cart c) \<Rightarrow>
          (case find (\<lambda>i. ci_productId i = doc_id p) (cart_items c) of
             Some existing \<Rightarrow>
               Returns (saveCart now
                 (c\<lparr> cart_items := change_first (doc_id p) (\<lambda>old. old + q) (cart_items c) \<rparr>))
           | None \<Rightarrow>
               Returns (saveCart now (c\<lparr> cart_items := cart_items c @ [new_line p q] \<rparr>))))"

definition removeItem :: "nat \<Rightarrow> string \<Rightarrow> localStorage \<Rightarrow> localStorage completion" where
  "removeItem now p ls =
     (case getCart now ls of
        Throws \<Rightarrow> Throws
      | Returns Not_a_cart \<Rightarrow> Throws
      | Returns (Cart c) \<Rightarrow>
          Returns (saveCart now
            (c\<lparr> cart_items := filter (\<lambda>i. ci_productId i \<noteq> p) (cart_items c) \<rparr>)))"

definition updateQuantity :: "nat \<Rightarrow> string \<Rightarrow> int \<Rightarrow> localStorage \<Rightarrow> localStorage completion" where
  "updateQuantity now p q ls =
     (case getCart now ls of
        Throws \<Rightarrow> Throws
      | Returns Not_a_cart \<Rightarrow> Throws
      | Returns (Cart c) \<Rightarrow>
          (case find (\<lambda>i. ci_productId i = p) (cart_items c) of
             None \<Rightarrow> Returns ls
           | Some item \<Rightarrow>
               if q \<le> 0 then removeItem now p ls
               else Returns (saveCart now
                      (c\<lparr> cart_items := change_first p (\<lambda>old. q) (cart_items c) \<rparr>))))"

definition clear :: "localStorage \<Rightarrow> localStorage completion" where
  "clear ls = Returns None"

text \<open>A cart operation issued by the page at a time, and a run of them.\<close>

datatype cart_op =
    AddItem "shop_product" int
  | UpdateQuantity string int
  | RemoveItem string
  | Clear

fun cart_step :: "nat \<Rightarrow> cart_op \<Rightarrow> localStorage \<Rightarrow> localStorage completion" where
  "cart_step now (AddItem p q) ls = addItem now p q ls"
| "cart_step now (UpdateQuantity p q) ls = updateQuantity now p q ls"
| "cart_step now (RemoveItem p) ls = removeItem now p ls"
| "cart_step now Clear ls = clear ls"

fun cart_run :: "(nat \<times> cart_op) list \<Rightarrow> localStorage \<Rightarrow> localStorage completion" where
  "cart_run [] ls = Returns ls"
| "cart_run ((now, op) # rest) ls =
     (case cart_step now op ls of Throws \<Rightarrow> Throws | Returns ls' \<Rightarrow> cart_run rest ls')"

text \<open>Every line of the persisted cart has quantity at least 1.\<close>

definition quantities_positive :: "localStorage \<Rightarrow> bool" where
  "quantities_positive ls =
     (case ls of
        Some (Json c) \<Rightarrow> list_all (\<lambda>i. 1 \<le> ci_quantity i) (cart_items c)
      | _ \<Rightarrow> True)"

text \<open>The quantity argument of an \<open>addItem\<close> call, 1 for the other operations.\<close>

fun added_quantity :: "cart_op \<Rightarrow> int" where
  "added_quantity (AddItem p q) = q"
| "added_quantity _ = 1"

section \<open>stripeWebhook\<close>

text \<open>
  \<open>session.metadata.orderItems\<close>, classified by what
  \<open>JSON.parse(session.metadata.orderItems || "[]")\<close> does: the property is
  absent (the parse yields the empty list), its text does not parse (the parse
  throws), or it is the text that \<open>createCheckoutSession\<close> serialised.
\<close>

datatype metadata = No_orderItems | Malformed | OrderItems "order_item list"

text \<open>\<open>None\<close> is the \<open>SyntaxError\<close> that \<open>JSON.parse\<close> throws.\<close>

fun parse_orderItems :: "metadata \<Rightarrow> order_item list option" where
  "parse_orderItems No_orderItems = Some []"
| "parse_orderItems Malformed = None"
| "parse_orderItems (OrderItems its) = Some its"

text \<open>
  The checkout session object of the event. \<open>customer_email\<close> and
  \<open>customer_name\<close> are \<open>session.customer_details?.email\<close> and
  \<open>?.name\<close>, \<open>amount_shipping\<close> is
  \<open>session.total_details?.amount_shipping\<close>.
\<close>

record session =
  session_id :: string
  payment_intent :: string
  customer_email :: "string option"
  customer_name :: "string option"
  session_metadata :: metadata
  amount_subtotal :: int
  amount_shipping :: "int option"
  amount_total :: int
  shipping_address :: "string option"
  shipping_name :: "string option"

record event =
  event_type :: string
  data_object :: session

record order =
  stripeSessionId :: string
  stripePaymentIntentId :: string
  customerEmail :: string
  customerName :: string
  order_items :: "order_item list"
  subtotal :: int
  shipping :: int
  total :: int
  order_status :: string
  shippingAddress :: "string option"
  shippingName :: "string option"
  trackingNumber :: "string option"
  trackingCarrier :: "string option"
  digitalDelivered :: bool
  order_notes :: string

text \<open>
  A document of the \<open>mail\<close> collection. The HTML of the two messages is
  reduced to what it is built from: the order reference, the item list and the
  total for the confirmation, the (name, url) pairs for the download links.
\<close>

datatype mail_content =
    Order_confirmation nat "order_item list" int
  | Digital_downloads "(string \<times> string) list"

record mail_doc =
  mail_to :: "string option"
  content :: mail_content

text \<open>
  The three collections the handler touches. \<open>orders.add\<close> appends a document
  under a fresh id; the position in \<open>orders\<close> stands for that id, so the
  \<open>orderRef\<close> of a new order is the length of the list before the append.
  Server timestamps (\<open>createdAt\<close>, \<open>updatedAt\<close>) are left out.
\<close>

record firestore =
  products :: catalog
  orders :: "order list"
  mail :: "mail_doc list"

text \<open>
  Every awaited Firestore call may reject. A schedule lists, for the successive
  calls of one run, whether the call rejects (\<open>True\<close>); past its end every
  call goes through.
\<close>

type_synonym schedule = "bool list"

definition rejects :: "schedule \<Rightarrow> bool" where
  "rejects sch = (case sch of [] \<Rightarrow> False | b # _ \<Rightarrow> b)"

text \<open>
  The state of a run after a stage: an exception left the \<open>try\<close> block with
  the store as it was, or the stage finished with a value, the store and the
  rest of the schedule.
\<close>

datatype 'a stage = Threw firestore | Finished 'a firestore schedule

text \<open>
  The body of the transaction on one product document: read it, and if it
  exists with a finite inventory, write the inventory less the quantity.
\<close>

definition decrement :: "string \<Rightarrow> int \<Rightarrow> firestore \<Rightarrow> firestore" where
  "decrement pid q fs =
     (case products fs pid of
        None \<Rightarrow> fs
      | Some p \<Rightarrow>
          if inventory p \<noteq> - 1 then
            fs\<lparr> products := (products fs)(pid \<mapsto> p\<lparr> inventory := inventory p - q \<rparr>) \<rparr>
          else fs)"

fun decrement_inventory :: "order_item list \<Rightarrow> firestore \<Rightarrow> schedule \<Rightarrow> unit stage" where
  "decrement_inventory [] fs sch = Finished () fs sch"
| "decrement_inventory (item # rest) fs sch =
     (if oi_category item = ''physical'' then
        (if rejects sch then Threw fs
         else decrement_inventory rest
                (decrement (oi_productId item) (oi_quantity item) fs) (tl sch))
      else decrement_inventory rest fs sch)"

text \<open>The loop over the digital items that collects \<open>downloadLinks\<close>.\<close>

fun fetch_links ::
  "order_item list \<Rightarrow> (string \<times> string) list \<Rightarrow> firestore \<Rightarrow> schedule
     \<Rightarrow> (string \<times> string) list stage" where
  "fetch_links [] downloadLinks fs sch = Finished downloadLinks fs sch"
| "fetch_links (item # rest) downloadLinks fs sch =
     (if rejects sch then Threw fs
      else
        (case products fs (oi_productId item) of
           None \<Rightarrow> fetch_links rest downloadLinks fs (tl sch)
         | Some p \<Rightarrow>
             (case digitalFileUrl p of
                None \<Rightarrow> fetch_links rest downloadLinks fs (tl sch)
              | Some url \<Rightarrow>
                  if url = [] then fetch_links rest downloadLinks fs (tl sch)
                  else fetch_links rest (downloadLinks @ [(oi_name item, url)]) fs (tl sch))))"

definition new_order :: "session \<Rightarrow> order_item list \<Rightarrow> order" where
  "new_order s orderItems =
     \<lparr> stripeSessionId = session_id s,
       stripePaymentIntentId = payment_intent s,
       customerEmail = (case customer_email s of None \<Rightarrow> [] | Some e \<Rightarrow> e),
       customerName = (case customer_name s of None \<Rightarrow> [] | Some n \<Rightarrow> n),
       order_items = orderItems,
       subtotal = amount_subtotal s,
       shipping = (case amount_shipping s of None \<Rightarrow> 0 | Some a \<Rightarrow> a),
       total = amount_total s,
       order_status = ''paid'',
       shippingAddress = shipping_address s,
       shippingName = shipping_name s,
       trackingNumber = None,
       trackingCarrier = None,
       digitalDelivered = False,
       order_notes = [] \<rparr>"

definition add_mail :: "mail_doc \<Rightarrow> firestore \<Rightarrow> firestore" where
  "add_mail m fs = fs\<lparr> mail := mail fs @ [m] \<rparr>"

text \<open>\<open>orderRef.update({ digitalDelivered: true })\<close>.\<close>

definition mark_delivered :: "nat \<Rightarrow> firestore \<Rightarrow> firestore" where
  "mark_delivered orderRef fs =
     (if orderRef < length (orders fs) then
        fs\<lparr> orders := (orders fs)[orderRef := (orders fs ! orderRef)\<lparr> digitalDelivered := True \<rparr>] \<rparr>
      else fs)"

text \<open>The digital delivery part of the \<open>try\<close> block.\<close>

definition deliver_digital ::
  "session \<Rightarrow> order_item list \<Rightarrow> nat \<Rightarrow> firestore \<Rightarrow> schedule \<Rightarrow> unit stage" where
  "deliver_digital s orderItems orderRef fs sch =
     (let digitalItems = filter (\<lambda>i. oi_category i = ''digital'') orderItems in
      if digitalItems = [] then Finished () fs sch
      else
        (case fetch_links digitalItems [] fs sch of
           Threw fs' \<Rightarrow> Threw fs'
         | Finished downloadLinks fs1 sch1 \<Rightarrow>
             if downloadLinks = [] then Finished () fs1 sch1
             else if rejects sch1 then Threw fs1
             else
               (let fs2 = add_mail \<lparr> mail_to = customer_email s,
                                      content = Digital_downloads downloadLinks \<rparr> fs1;
                    sch2 = tl sch1
                in if rejects sch2 then Threw fs2
                   else Finished () (mark_delivered orderRef fs2) (tl sch2))))"

text \<open>
  The \<open>try\<close> block of the \<open>checkout.session.completed\<close> case: parse the
  items, add the order, decrement the inventories, queue the confirmation, then
  the digital delivery.
\<close>

definition process_completed :: "session \<Rightarrow> firestore \<Rightarrow> schedule \<Rightarrow> unit stage" where
  "process_completed s fs sch =
     (case parse_orderItems (session_metadata s) of
        None \<Rightarrow> Threw fs
      | Some orderItems \<Rightarrow>
          if rejects sch then Threw fs
          else
            (let orderRef = length (orders fs);
                 fs1 = fs\<lparr> orders := orders fs @ [new_order s orderItems] \<rparr>
             in case decrement_inventory orderItems fs1 (tl sch) of
                  Threw fs' \<Rightarrow> Threw fs'
                | Finished u fs2 sch2 \<Rightarrow>
                    if rejects sch2 then Threw fs2
                    else
                      deliver_digital s orderItems orderRef
                        (add_mail \<lparr> mail_to = customer_email s,
                                    content = Order_confirmation orderRef orderItems
                                                (amount_total s) \<rparr> fs2)
                        (tl sch2)))"

text \<open>The store a stage leaves behind, and whether it left by an exception.\<close>

fun store_after :: "'a stage \<Rightarrow> firestore" where
  "store_after (Threw fs) = fs"
| "store_after (Finished v fs sch) = fs"

fun threw :: "'a stage \<Rightarrow> bool" where
  "threw (Threw fs) = True"
| "threw (Finished v fs sch) = False"

text \<open>
  The incoming request, and the handler. \<open>constructEvent\<close> is
  \<open>stripe.webhooks.constructEvent\<close> with the configured secret: it returns
  the event (\<open>Inr\<close>) or throws with a message (\<open>Inl\<close>). The \<open>catch\<close>
  of the \<open>try\<close> block only logs, so after the \<open>switch\<close> every verified
  request is answered \<open>res.json({ received: true })\<close>.
\<close>

record webhook_request =
  rawBody :: string
  stripe_signature :: "string option"

definition stripeWebhook ::
  "(string \<Rightarrow> string option \<Rightarrow> string + event) \<Rightarrow> webhook_request \<Rightarrow> firestore \<Rightarrow> schedule
     \<Rightarrow> response \<times> firestore" where
  "stripeWebhook constructEvent req fs sch =
     (case constructEvent (rawBody req) (stripe_signature req) of
        Inl message \<Rightarrow>
          (\<lparr> status = 400, body = Text_body (''Webhook Error: '' @ message) \<rparr>, fs)
      | Inr ev \<Rightarrow>
          (\<lparr> status = 200, body = Received_json \<rparr>,
           if event_type ev = ''checkout.session.completed'' then
             store_after (process_completed (data_object ev) fs sch)
           else fs))"

text \<open>Successive deliveries, each with the schedule of its own run.\<close>

fun deliveries ::
  "(string \<Rightarrow> string option \<Rightarrow> string + event) \<Rightarrow> (webhook_request \<times> schedule) list
     \<Rightarrow> firestore \<Rightarrow> firestore" where
  "deliveries constructEvent [] fs = fs"
| "deliveries constructEvent ((req, sch) # rest) fs =
     deliveries constructEvent rest (snd (stripeWebhook constructEvent req fs sch))"

text \<open>Observations on the store.\<close>

definition orders_for :: "string \<Rightarrow> firestore \<Rightarrow> order list" where
  "orders_for sid fs = filter (\<lambda>ord. stripeSessionId ord = sid) (orders fs)"

definition inventory_of :: "string \<Rightarrow> firestore \<Rightarrow> int option" where
  "inventory_of pid fs = map_option inventory (products fs pid)"

section \<open>Vocabulary of the properties\<close>

subsection \<open>Checkout requests\<close>

text \<open>
  A line item carries the catalog's price and name for the product the request
  item names.
\<close>

definition server_priced :: "catalog_reads \<Rightarrow> checkout_item option \<Rightarrow> line_item \<Rightarrow> bool" where
  "server_priced reads element l =
     (case element of
        None \<Rightarrow> False
      | Some item \<Rightarrow>
          (case productId item of
             None \<Rightarrow> False
           | Some pid \<Rightarrow>
               (case reads pid of
                  Returns (Some p) \<Rightarrow> unit_amount l = price p \<and> product_name l = name p
                | _ \<Rightarrow> False)))"

text \<open>
  What the shop's own client sends for an item, and two request bodies that
  agree on it for every item and on the redirect URLs: they may differ in
  \<open>sent_price\<close> and \<open>sent_name\<close> only.
\<close>

definition ordered :: "checkout_item \<Rightarrow> string option \<times> int option" where
  "ordered item = (productId item, quantity item)"

definition same_order :: "checkout_request \<Rightarrow> checkout_request \<Rightarrow> bool" where
  "same_order r r' =
     (map_option (map (map_option ordered)) (items r)
        = map_option (map (map_option ordered)) (items r')
      \<and> successUrl r = successUrl r' \<and> cancelUrl r = cancelUrl r')"






text \<open>An item that breaks no rule against the catalog.\<close>

definition passes :: "catalog_reads \<Rightarrow> checkout_item option \<Rightarrow> bool" where
  "passes reads element =
     (case element of
        None \<Rightarrow> False
      | Some item \<Rightarrow>
          \<not> invalid_item item \<and>
          (case productId item of
             None \<Rightarrow> False
           | Some pid \<Rightarrow>
               (case reads pid of
                  Returns (Some p) \<Rightarrow>
                    isActive p \<and>
                    \<not> (category p = ''physical'' \<and> inventory p \<noteq> - 1 \<and>
                       (case quantity item of None \<Rightarrow> False | Some q \<Rightarrow> inventory p < q))
                | _ \<Rightarrow> False)))"

subsection \<open>Orders and inventory\<close>

text \<open>
  The quantity of product \<open>pid\<close> that the physical lines of an order ask for;
  the items a delivered request carries when it is a verified
  \<open>checkout.session.completed\<close> event with readable metadata; and the total
  over a run of deliveries.
\<close>

definition purchased :: "string \<Rightarrow> order_item list \<Rightarrow> int" where
  "purchased pid its =
     sum_list (map oi_quantity
       (filter (\<lambda>i. oi_category i = ''physical'' \<and> oi_productId i = pid) its))"

definition ordered_items ::
  "(string \<Rightarrow> string option \<Rightarrow> string + event) \<Rightarrow> webhook_request \<Rightarrow> order_item list" where
  "ordered_items constructEvent req =
     (case constructEvent (rawBody req) (stripe_signature req) of
        Inl message \<Rightarrow> []
      | Inr ev \<Rightarrow>
          if event_type ev = ''checkout.session.completed'' then
            (case parse_orderItems (session_metadata (data_object ev)) of
               None \<Rightarrow> []
             | Some its \<Rightarrow> its)
          else [])"

fun demand ::
  "(string \<Rightarrow> string option \<Rightarrow> string + event) \<Rightarrow> string
     \<Rightarrow> (webhook_request \<times> schedule) list \<Rightarrow> int" where
  "demand constructEvent pid [] = 0"
| "demand constructEvent pid ((req, sch) # rest) =
     purchased pid (ordered_items constructEvent req) + demand constructEvent pid rest"

definition nonnegative :: "order_item list \<Rightarrow> bool" where
  "nonnegative its = list_all (\<lambda>i. 0 \<le> oi_quantity i) its"

text \<open>
  The inventory transactions of an order, one after the other: one for each of
  its physical lines.
\<close>

definition decrement_all :: "order_item list \<Rightarrow> firestore \<Rightarrow> firestore" where
  "decrement_all its fs =
     fold (\<lambda>i. decrement (oi_productId i) (oi_quantity i))
       (filter (\<lambda>i. oi_category i = ''physical'') its) fs"

subsection \<open>Digital delivery\<close>

text \<open>
  A digital line has a download when its product document exists with a
  truthy \<open>digitalFileUrl\<close>. \<open>flagged k\<close> says that the order at reference
  \<open>k\<close> exists and is marked \<open>digitalDelivered\<close>.
\<close>

definition url_of :: "firestore \<Rightarrow> string \<Rightarrow> string option" where
  "url_of fs pid = (case products fs pid of None \<Rightarrow> None | Some p \<Rightarrow> digitalFileUrl p)"

definition has_url :: "firestore \<Rightarrow> order_item \<Rightarrow> bool" where
  "has_url fs i = (\<not> falsy_string (url_of fs (oi_productId i)))"

definition has_download :: "order_item list \<Rightarrow> firestore \<Rightarrow> bool" where
  "has_download its fs = list_ex (\<lambda>i. oi_category i = ''digital'' \<and> has_url fs i) its"

definition is_download :: "mail_doc \<Rightarrow> bool" where
  "is_download m = (case content m of Digital_downloads links \<Rightarrow> True | _ \<Rightarrow> False)"

definition download_mails :: "firestore \<Rightarrow> mail_doc list" where
  "download_mails fs = filter is_download (mail fs)"

definition flagged :: "nat \<Rightarrow> firestore \<Rightarrow> bool" where
  "flagged k fs = (k < length (orders fs) \<and> digitalDelivered (orders fs ! k))"

section \<open>Sample data\<close>

definition candle :: product where
  "candle = \<lparr> name = ''Candle'', price = 1500, category = ''physical'', inventory = 2,
              isActive = True, images = [''candle.jpg''], digitalFileUrl = None \<rparr>"

definition retired_mug :: product where
  "retired_mug = \<lparr> name = ''Mug'', price = 900, category = ''physical'', inventory = 4,
              isActive = False, images = [], digitalFileUrl = None \<rparr>"

definition shop_catalog :: catalog where
  "shop_catalog = [''candle'' \<mapsto> candle, ''mug'' \<mapsto> retired_mug]"

text \<open>
  The catalog as the validator reads it in the examples: the store refuses the
  id \<open>a/b\<close>, and answers for every other id.
\<close>

definition shop_reads :: catalog_reads where
  "shop_reads pid = (if pid = ''a/b'' then Throws else Returns (shop_catalog pid))"

definition stripe_ok :: "session_config \<Rightarrow> string option" where
  "stripe_ok cfg = Some ''https://checkout.stripe.com/c/pay/cs_test_1''"

definition wants :: "string \<Rightarrow> int \<Rightarrow> checkout_item" where
  "wants pid q = \<lparr> productId = Some pid, quantity = Some q, sent_price = None, sent_name = None \<rparr>"

definition request_for :: "checkout_item list \<Rightarrow> checkout_request" where
  "request_for its = \<lparr> items = Some (map Some its), successUrl = Some ''https://ethereal-balance.com/?checkout=success'',
       cancelUrl = Some ''https://ethereal-balance.com/?checkout=cancelled#shop'' \<rparr>"

text \<open>A request whose item also carries a price of one cent and another name.\<close>

definition forged_request :: checkout_request where
  "forged_request =
     request_for [\<lparr> productId = Some ''candle'', quantity = Some 1,
                     sent_price = Some 1, sent_name = Some ''Free candle'' \<rparr>]"

definition candle_session :: session_config where
  "candle_session =
     build_session_config forged_request
       [make_line_item ''candle'' 1 candle] [make_order_item ''candle'' 1 candle] True"

definition shop_candle :: shop_product where
  "shop_candle = \<lparr> name = ''Candle'', price = 1500, category = ''physical'', inventory = 2,
       isActive = True, images = [''candle.jpg''], digitalFileUrl = None, doc_id = ''candle'' \<rparr>"

definition order_candle :: "int \<Rightarrow> order_item" where
  "order_candle q = \<lparr> oi_productId = ''candle'', oi_name = ''Candle'', oi_price = 1500,
                      oi_quantity = q, oi_category = ''physical'' \<rparr>"

definition paid_session :: "string \<Rightarrow> order_item list \<Rightarrow> session" where
  "paid_session sid its =
     \<lparr> session_id = sid, payment_intent = ''pi_1'', customer_email = Some ''ana@example.com'',
       customer_name = Some ''Ana'', session_metadata = OrderItems its,
       amount_subtotal = 3000, amount_shipping = None, amount_total = 3000,
       shipping_address = None, shipping_name = None \<rparr>"

text \<open>
  A \<open>constructEvent\<close> for the examples: it accepts the signature \<open>good\<close>,
  and reads the bodies \<open>A\<close> and \<open>B\<close> as completed checkouts of two candles
  each, in the sessions \<open>cs_A\<close> and \<open>cs_B\<close>.
\<close>

definition signed_events :: "string \<Rightarrow> string option \<Rightarrow> string + event" where
  "signed_events raw sig =
     (if sig \<noteq> Some ''good'' then Inl ''No signatures found matching the expected signature''
      else if raw = ''A'' then
        Inr \<lparr> event_type = ''checkout.session.completed'',
              data_object = paid_session ''cs_A'' [order_candle 2] \<rparr>
      else if raw = ''B'' then
        Inr \<lparr> event_type = ''checkout.session.completed'',
              data_object = paid_session ''cs_B'' [order_candle 2] \<rparr>
      else
        Inr \<lparr> event_type = ''payment_intent.payment_failed'',
              data_object = paid_session [] [] \<rparr>)"

definition delivery :: "string \<Rightarrow> webhook_request" where
  "delivery raw = \<lparr> rawBody = raw, stripe_signature = Some ''good'' \<rparr>"

definition shop_store :: "int \<Rightarrow> firestore" where
  "shop_store stock =
     \<lparr> products = [''candle'' \<mapsto> candle\<lparr> inventory := stock \<rparr>], orders = [], mail = [] \<rparr>"

definition unlimited_store :: firestore where
  "unlimited_store =
     \<lparr> products = [''candle'' \<mapsto> candle\<lparr> inventory := - 1 \<rparr>], orders = [], mail = [] \<rparr>"

definition ebook :: product where
  "ebook = \<lparr> name = ''Breathwork Guide'', price = 1200, category = ''digital'', inventory = - 1,
             isActive = True, images = [], digitalFileUrl = Some ''https://files.example/guide.pdf'' \<rparr>"

definition audio :: product where
  "audio = \<lparr> name = ''Sound Bath'', price = 800, category = ''digital'', inventory = - 1,
             isActive = True, images = [], digitalFileUrl = None \<rparr>"

definition digital_store :: firestore where
  "digital_store = \<lparr> products = [''ebook'' \<mapsto> ebook, ''audio'' \<mapsto> audio], orders = [], mail = [] \<rparr>"

definition order_digital :: "string \<Rightarrow> string \<Rightarrow> order_item" where
  "order_digital pid n = \<lparr> oi_productId = pid, oi_name = n, oi_price = 1000,
                      oi_quantity = 1, oi_category = ''digital'' \<rparr>"

section \<open>The Order Validator\<close>

subsection \<open>The handler on a non-empty item list\<close>

lemma checkout_post:
  assumes "items req = Some its" "its \<noteq> []"
  shows "createCheckoutSession number_text stripe reads ''POST'' req =
     (if falsy_string (successUrl req) \<or> falsy_string (cancelUrl req) then
        reply 400 (Error_json ''Missing redirect URLs'') [] None
      else
        (case validate_items number_text reads its [] [] False [] of
           Bad_request msg got \<Rightarrow> reply 400 (Error_json msg) got None
         | Exception got \<Rightarrow>
             reply 500 (Error_json ''Failed to create checkout session'') got None
         | Validated lineItems orderItems hasPhysical got \<Rightarrow>
             (let cfg = build_session_config req lineItems orderItems hasPhysical in
              case stripe cfg of
                None \<Rightarrow>
                  reply 500 (Error_json ''Failed to create checkout session'') got (Some cfg)
              | Some url \<Rightarrow> reply 200 (Session_json url) got (Some cfg))))"
  using assms by (cases its) (simp_all add: createCheckoutSession_def del: validate_items.simps)

lemma requested_validated:
  assumes "requested (createCheckoutSession number_text stripe reads method req) = Some cfg"
  shows "\<exists>its li oi hp got. items req = Some its
           \<and> validate_items number_text reads its [] [] False [] = Validated li oi hp got
           \<and> cfg = build_session_config req li oi hp"
proof (cases "items req")
  case None
  with assms show ?thesis
    by (simp add: createCheckoutSession_def reply_def split: if_splits)
next
  case (Some its)
  show ?thesis
  proof (cases "validate_items number_text reads its [] [] False []")
    case (Bad_request msg got)
    with Some assms show ?thesis
      by (simp add: createCheckoutSession_def reply_def split: if_splits list.splits)
  next
    case (Exception got)
    with Some assms show ?thesis
      by (simp add: createCheckoutSession_def reply_def split: if_splits list.splits)
  next
    case (Validated li oi hp got)
    with Some assms have "cfg = build_session_config req li oi hp"
      by (simp add: createCheckoutSession_def reply_def Let_def
          split: if_splits list.splits option.splits)
    with Some Validated show ?thesis by simp
  qed
qed

subsection \<open>The validation loop\<close>

text \<open>One round of the loop on an item that passes.\<close>

lemma validate_items_step:
  assumes "\<not> invalid_item item" "productId item = Some pid" "quantity item = Some q"
    "reads pid = Returns (Some p)" "isActive p"
    "\<not> (category p = ''physical'' \<and> inventory p \<noteq> - 1 \<and> inventory p < q)"
  shows "validate_items number_text reads (Some item # rest) li oi hp got =
         validate_items number_text reads rest (li @ [make_line_item pid q p])
           (oi @ [make_order_item pid q p]) (hp \<or> category p = ''physical'') (got @ [pid])"
  using assms by auto

text \<open>The loop falls through only when every round was such a round.\<close>

lemma validated_round:
  assumes "validate_items number_text reads (element # rest) li oi hp got
             = Validated li' oi' hp' got'"
  obtains item pid q p where "element = Some item" "\<not> invalid_item item"
    "productId item = Some pid" "quantity item = Some q" "reads pid = Returns (Some p)"
    "validate_items number_text reads rest (li @ [make_line_item pid q p])
       (oi @ [make_order_item pid q p]) (hp \<or> category p = ''physical'') (got @ [pid])
     = Validated li' oi' hp' got'"
proof (cases element)
  case None
  with assms show ?thesis by simp
next
  case (Some item)
  with assms show ?thesis
    by (auto split: if_splits option.splits completion.splits intro: that)
qed

lemma validated_lines:
  "validate_items number_text reads its li oi hp got = Validated li' oi' hp' got'
   \<Longrightarrow> \<exists>new. li' = li @ new \<and> list_all2 (server_priced reads) its new"
proof (induction its arbitrary: li oi hp got)
  case Nil
  then show ?case by simp
next
  case (Cons element rest)
  from Cons.prems obtain item pid q p where
    f: "element = Some item" "productId item = Some pid" "reads pid = Returns (Some p)"
    and r: "validate_items number_text reads rest (li @ [make_line_item pid q p])
              (oi @ [make_order_item pid q p]) (hp \<or> category p = ''physical'') (got @ [pid])
            = Validated li' oi' hp' got'"
    by (rule validated_round)
  from Cons.IH [OF r] obtain new where
    n: "li' = (li @ [make_line_item pid q p]) @ new" "list_all2 (server_priced reads) rest new"
    by blast
  have "server_priced reads element (make_line_item pid q p)"
    using f by (simp add: server_priced_def make_line_item_def)
  with n show ?case by auto
qed

lemma validate_items_ordered:
  "map (map_option ordered) its = map (map_option ordered) its'
   \<Longrightarrow> validate_items number_text reads its li oi hp got
       = validate_items number_text reads its' li oi hp got"
proof (induction its arbitrary: its' li oi hp got)
  case Nil
  then show ?case by simp
next
  case (Cons element rest)
  then obtain element' rest' where s: "its' = element' # rest'"
    "map_option ordered element = map_option ordered element'"
    "map (map_option ordered) rest = map (map_option ordered) rest'"
    by (cases its') auto
  show ?case
  proof (cases element)
    case None
    with s(2) have "element' = None" by simp
    with None s(1) show ?thesis by simp
  next
    case (Some item)
    with s(2) obtain item' where i': "element' = Some item'" "ordered item = ordered item'"
      by (cases element') auto
    from i'(2) have e: "productId item = productId item'" "quantity item = quantity item'"
      by (simp_all add: ordered_def)
    have i: "invalid_item item = invalid_item item'"
      using e by (simp add: invalid_item_def)
    show ?thesis
      unfolding s(1) Some i'(1) using e i Cons.IH [OF s(3)]
      by (simp split: option.splits completion.splits)
  qed
qed




lemma passes_prefix:
  "list_all (passes reads) pre
   \<Longrightarrow> \<exists>li' oi' hp' got'. validate_items number_text reads (pre @ xs) li oi hp got
                              = validate_items number_text reads xs li' oi' hp' got'"
proof (induction pre arbitrary: li oi hp got)
  case Nil
  then show ?case by auto
next
  case (Cons element pre)
  from Cons.prems have p: "passes reads element" and r: "list_all (passes reads) pre"
    by simp_all
  from p obtain item where e: "element = Some item"
    by (cases element) (simp_all add: passes_def)
  from p e have v: "\<not> invalid_item item" by (simp add: passes_def)
  from p e obtain pid where i: "productId item = Some pid"
    by (cases "productId item") (simp_all add: passes_def)
  from v obtain q where q: "quantity item = Some q"
    by (cases "quantity item") (simp_all add: invalid_item_def)
  from p e i obtain pr where d: "reads pid = Returns (Some pr)"
    by (auto simp: passes_def split: completion.splits option.splits)
  from p e i q d have a: "isActive pr"
    "\<not> (category pr = ''physical'' \<and> inventory pr \<noteq> - 1 \<and> inventory pr < q)"
    by (simp_all add: passes_def)
  note f = e v i q d a
  have "validate_items number_text reads ((element # pre) @ xs) li oi hp got =
        validate_items number_text reads (pre @ xs) (li @ [make_line_item pid q pr])
          (oi @ [make_order_item pid q pr]) (hp \<or> category pr = ''physical'') (got @ [pid])"
    unfolding f(1) using validate_items_step [where reads = reads, OF f(2-7)] by simp
  with Cons.IH [OF r] show ?case by metis
qed

subsection \<open>Price integrity\<close>

text \<open>
  Claim C3. When the validator accepts a request and builds the session, the
  line items pair up with the request's items, each carrying the unit price and
  the name of the catalog document of its product; and a request that differs
  only in the price or name its items carry gets the very same run: the same
  line items, the same session, the same response.
\<close>

theorem line_items_priced_by_catalog:
  assumes "requested (createCheckoutSession number_text stripe reads ''POST'' req) = Some cfg"
  shows "(\<exists>its. items req = Some its \<and> list_all2 (server_priced reads) its (line_items cfg))
       \<and> (\<forall>req'. same_order req req' \<longrightarrow>
             createCheckoutSession number_text stripe reads ''POST'' req'
               = createCheckoutSession number_text stripe reads ''POST'' req)"
proof
  from requested_validated [OF assms] obtain its li oi hp got where
    v: "items req = Some its"
       "validate_items number_text reads its [] [] False [] = Validated li oi hp got"
       "cfg = build_session_config req li oi hp"
    by blast
  from validated_lines [OF v(2)] have "list_all2 (server_priced reads) its li" by simp
  with v show "\<exists>its. items req = Some its \<and> list_all2 (server_priced reads) its (line_items cfg)"
    by (simp add: build_session_config_def)
next
  show "\<forall>req'. same_order req req' \<longrightarrow>
             createCheckoutSession number_text stripe reads ''POST'' req'
               = createCheckoutSession number_text stripe reads ''POST'' req"
  proof (intro allI impI)
    fix req'
    assume s: "same_order req req'"
    show "createCheckoutSession number_text stripe reads ''POST'' req'
               = createCheckoutSession number_text stripe reads ''POST'' req"
    proof (cases "items req")
      case None
      with s have "items req' = None" by (simp add: same_order_def)
      with None show ?thesis by (simp add: createCheckoutSession_def)
    next
      case (Some its)
      with s obtain its' where i: "items req' = Some its'"
        "map (map_option ordered) its = map (map_option ordered) its'"
        by (cases "items req'") (auto simp: same_order_def)
      from i(2) have e: "its = [] \<longleftrightarrow> its' = []" by (metis map_is_Nil_conv)
      from s have u: "successUrl req = successUrl req'" "cancelUrl req = cancelUrl req'"
        by (simp_all add: same_order_def)
      have b: "\<And>a b c. build_session_config req' a b c = build_session_config req a b c"
        using u by (simp add: build_session_config_def)
      have v: "validate_items number_text reads its' [] [] False []
                 = validate_items number_text reads its [] [] False []"
        using validate_items_ordered [OF i(2)] by simp
      show ?thesis
      proof (cases "its = []")
        case True
        with e Some i show ?thesis by (simp add: createCheckoutSession_def)
      next
        case False
        with e have "its' \<noteq> []" by simp
        from checkout_post [OF Some False] checkout_post [OF i(1) this] u b v
        show ?thesis by (simp split: validation.splits)
      qed
    qed
  qed
qed

theorem line_items_priced_by_catalog_witness:
  "requested (createCheckoutSession decimal stripe_ok shop_reads ''POST'' forged_request)
     = Some candle_session
   \<and> map unit_amount (line_items candle_session) = [1500]
   \<and> map product_name (line_items candle_session) = [''Candle'']
   \<and> createCheckoutSession decimal stripe_ok shop_reads ''POST'' (request_for [wants ''candle'' 1])
     = createCheckoutSession decimal stripe_ok shop_reads ''POST'' forged_request"
proof -
  have h: "requested (createCheckoutSession decimal stripe_ok shop_reads ''POST'' forged_request)
             = Some candle_session"
    by (simp add: createCheckoutSession_def forged_request_def request_for_def
          falsy_string_def invalid_item_def shop_reads_def shop_catalog_def candle_def
          stripe_ok_def reply_def candle_session_def Let_def)
  have s: "same_order forged_request (request_for [wants ''candle'' 1])"
    by (simp add: same_order_def ordered_def forged_request_def request_for_def wants_def)
  have l: "map unit_amount (line_items candle_session) = [1500]
         \<and> map product_name (line_items candle_session) = [''Candle'']"
    by (simp add: candle_session_def build_session_config_def make_line_item_def candle_def)
  from line_items_priced_by_catalog [OF h] s h l show ?thesis by blast
qed

subsection \<open>Malformed requests\<close>








subsection \<open>Business rules\<close>

text \<open>
  Claim C7, as the code has it. Let the items before the offending one pass,
  and let the offending item carry a product id and a quantity of 1 or more.
  When the catalog read for it returns, the whole request is answered 400 and
  no session is requested, with a message that depends on the rule: a product
  that is not in the catalog is named by the requested id,
  \<open>Product not found: <productId>\<close>; an inactive product by its catalog name,
  \<open><name> is no longer available\<close>; a physical product with finite inventory
  below the quantity by its catalog name and the stock,
  \<open><name> only has <inventory> left in stock\<close>, the inventory as the template
  literal prints a number. When the read throws instead, no rule is looked at:
  the answer is 500, \<open>Failed to create checkout session\<close>, and no session is
  requested either.
\<close>

theorem business_rule_rejection:
  assumes its: "items req = Some (pre @ Some item # rest)"
    and urls: "\<not> falsy_string (successUrl req)" "\<not> falsy_string (cancelUrl req)"
    and pre: "list_all (passes reads) pre"
    and item: "\<not> invalid_item item" "productId item = Some pid" "quantity item = Some q"
  shows "(reads pid = Returns None \<longrightarrow>
            sent (createCheckoutSession number_text stripe reads ''POST'' req)
              = \<lparr> status = 400, body = Error_json (''Product not found: '' @ pid) \<rparr>
            \<and> requested (createCheckoutSession number_text stripe reads ''POST'' req) = None)
       \<and> (\<forall>p. reads pid = Returns (Some p) \<and> \<not> isActive p \<longrightarrow>
            sent (createCheckoutSession number_text stripe reads ''POST'' req)
              = \<lparr> status = 400, body = Error_json (name p @ '' is no longer available'') \<rparr>
            \<and> sublist (name p) (name p @ '' is no longer available'')
            \<and> requested (createCheckoutSession number_text stripe reads ''POST'' req) = None)
       \<and> (\<forall>p. reads pid = Returns (Some p) \<and> isActive p \<and> category p = ''physical''
               \<and> inventory p \<noteq> - 1 \<and> inventory p < q \<longrightarrow>
            sent (createCheckoutSession number_text stripe reads ''POST'' req)
              = \<lparr> status = 400,
                  body = Error_json (name p @ '' only has '' @ number_text (inventory p)
                                       @ '' left in stock'') \<rparr>
            \<and> sublist (name p) (name p @ '' only has '' @ number_text (inventory p)
                                       @ '' left in stock'')
            \<and> requested (createCheckoutSession number_text stripe reads ''POST'' req) = None)
       \<and> (reads pid = Throws \<longrightarrow>
            sent (createCheckoutSession number_text stripe reads ''POST'' req)
              = \<lparr> status = 500, body = Error_json ''Failed to create checkout session'' \<rparr>
            \<and> requested (createCheckoutSession number_text stripe reads ''POST'' req) = None)"
proof -
  from passes_prefix [OF pre, of number_text "Some item # rest" "[]" "[]" False "[]"]
  obtain li oi hp got where
    v: "validate_items number_text reads (pre @ Some item # rest) [] [] False []
          = validate_items number_text reads (Some item # rest) li oi hp got"
    by blast
  have ne: "pre @ Some item # rest \<noteq> []" by simp
  note post = checkout_post [OF its ne, of number_text stripe reads]
  show ?thesis
    using post urls v item by (auto simp: reply_def)
qed

theorem business_rule_rejection_witness:
  "sent (createCheckoutSession decimal stripe_ok shop_reads ''POST''
           (request_for [wants ''candle'' 3]))
     = \<lparr> status = 400, body = Error_json ''Candle only has 2 left in stock'' \<rparr>
   \<and> sent (createCheckoutSession decimal stripe_ok shop_reads ''POST''
             (request_for [wants ''candle'' 1, wants ''mug'' 1]))
     = \<lparr> status = 400, body = Error_json ''Mug is no longer available'' \<rparr>
   \<and> requested (createCheckoutSession decimal stripe_ok shop_reads ''POST''
             (request_for [wants ''candle'' 1, wants ''mug'' 1])) = None
   \<and> sent (createCheckoutSession decimal stripe_ok shop_reads ''POST''
             (request_for [wants ''a/b'' 1]))
     = \<lparr> status = 500, body = Error_json ''Failed to create checkout session'' \<rparr>"
proof -
  have s: "decimal 2 = ''2''"
    by (simp add: decimal_def string_of_nat.simps digit_char_def)
  have a: "sent (createCheckoutSession decimal stripe_ok shop_reads ''POST''
             (request_for [wants ''candle'' 3]))
     = \<lparr> status = 400, body = Error_json ''Candle only has 2 left in stock'' \<rparr>"
    using business_rule_rejection [of "request_for [wants ''candle'' 3]" "[]"
                "wants ''candle'' 3" "[]" shop_reads "''candle''" 3 decimal stripe_ok] s
    by (simp add: request_for_def wants_def falsy_string_def invalid_item_def
          shop_reads_def shop_catalog_def candle_def)
  have b: "sent (createCheckoutSession decimal stripe_ok shop_reads ''POST''
             (request_for [wants ''candle'' 1, wants ''mug'' 1]))
     = \<lparr> status = 400, body = Error_json ''Mug is no longer available'' \<rparr>
   \<and> requested (createCheckoutSession decimal stripe_ok shop_reads ''POST''
             (request_for [wants ''candle'' 1, wants ''mug'' 1])) = None"
    using business_rule_rejection [of "request_for [wants ''candle'' 1, wants ''mug'' 1]"
                "[Some (wants ''candle'' 1)]" "wants ''mug'' 1" "[]"
                shop_reads "''mug''" 1 decimal stripe_ok]
    by (simp add: request_for_def wants_def falsy_string_def invalid_item_def passes_def
          shop_reads_def shop_catalog_def candle_def retired_mug_def)
  have c: "sent (createCheckoutSession decimal stripe_ok shop_reads ''POST''
             (request_for [wants ''a/b'' 1]))
     = \<lparr> status = 500, body = Error_json ''Failed to create checkout session'' \<rparr>"
    using business_rule_rejection [of "request_for [wants ''a/b'' 1]" "[]"
                "wants ''a/b'' 1" "[]" shop_reads "''a/b''" 1 decimal stripe_ok]
    by (simp add: request_for_def wants_def falsy_string_def invalid_item_def shop_reads_def)
  from a b c show ?thesis by simp
qed

text \<open>
  The request names a product that the catalog does not have: the message
  carries the requested id, there is no product name to give.
\<close>

theorem not_found_names_the_id:
  "sent (createCheckoutSession decimal stripe_ok shop_reads ''POST''
           (request_for [wants ''ghost'' 1]))
     = \<lparr> status = 400, body = Error_json ''Product not found: ghost'' \<rparr>
   \<and> shop_reads ''ghost'' = Returns None"
  by (simp add: createCheckoutSession_def request_for_def wants_def falsy_string_def
        invalid_item_def shop_reads_def shop_catalog_def reply_def)

section \<open>The cart\<close>

lemma getCart_cases:
  "getCart now None = Returns (Cart (empty_cart now))"
  "getCart now (Some Unparseable) = Returns (Cart (empty_cart now))"
  "getCart now (Some (Json c)) = Returns (Cart c)"
  "getCart now (Some Json_other) = Returns Not_a_cart"
  by (simp_all add: getCart_def)

lemma getCart_returns: "\<exists>v. getCart now ls = Returns v"
proof (cases ls)
  case None
  then show ?thesis by (simp add: getCart_cases)
next
  case (Some data)
  then show ?thesis by (cases data) (simp_all add: getCart_cases)
qed

lemma getCart_cart:
  assumes "ls \<noteq> Some Json_other"
  shows "\<exists>c. getCart now ls = Returns (Cart c)"
proof (cases ls)
  case None
  then show ?thesis by (simp add: getCart_cases)
next
  case (Some data)
  with assms show ?thesis by (cases data) (simp_all add: getCart_cases)
qed

text \<open>
  Claim C9, as the code has it. Whatever is stored, \<open>getCart\<close> returns and
  does not throw. With no record, or with text that does not parse, it returns
  the cart with the empty item list. Text that parses is returned as parsed,
  with no look at its shape: the stored cart for the text of a cart, and for
  text that parses to something else (\<open>null\<close>, \<open>{}\<close>) that value, which is
  not a cart.
\<close>

theorem getCart_never_throws:
  "getCart now ls \<noteq> Throws
   \<and> getCart now None = Returns (Cart \<lparr> cart_items = [], updatedAt = now \<rparr>)
   \<and> getCart now (Some Unparseable) = Returns (Cart \<lparr> cart_items = [], updatedAt = now \<rparr>)
   \<and> getCart now (Some (Json c)) = Returns (Cart c)
   \<and> getCart now (Some Json_other) = Returns Not_a_cart"
  using getCart_returns [of now ls] by (auto simp: getCart_cases empty_cart_def)

text \<open>
  The record holds text such as \<open>null\<close>: \<open>getCart\<close> returns the parsed
  value, not a cart and not the empty cart.
\<close>

theorem getCart_returns_what_it_parsed:
  "getCart 1 (Some Json_other) = Returns Not_a_cart
   \<and> getCart 1 (Some Json_other) \<noteq> Returns (Cart (empty_cart 1))"
  by (simp add: getCart_def)

lemma change_first_positive:
  assumes "list_all (\<lambda>i. 1 \<le> ci_quantity i) xs" "\<And>n. 1 \<le> n \<Longrightarrow> 1 \<le> f n"
  shows "list_all (\<lambda>i. 1 \<le> ci_quantity i) (change_first p f xs)"
  using assms by (induction xs) auto

lemma stored_positive:
  assumes "quantities_positive ls" "getCart now ls = Returns (Cart c)"
  shows "list_all (\<lambda>i. 1 \<le> ci_quantity i) (cart_items c)"
proof (cases ls)
  case None
  with assms(2) show ?thesis by (auto simp: getCart_cases empty_cart_def)
next
  case (Some data)
  show ?thesis
  proof (cases data)
    case Unparseable
    with Some assms(2) show ?thesis by (auto simp: getCart_cases empty_cart_def)
  next
    case (Json c')
    with Some assms show ?thesis by (auto simp: getCart_cases quantities_positive_def)
  next
    case Json_other
    with Some assms(2) show ?thesis by (simp add: getCart_cases)
  qed
qed

lemma saveCart_positive:
  "quantities_positive (saveCart now c) = list_all (\<lambda>i. 1 \<le> ci_quantity i) (cart_items c)"
  by (simp add: saveCart_def quantities_positive_def)

lemma saveCart_cart [simp]: "saveCart now c \<noteq> Some Json_other"
  by (simp add: saveCart_def)

text \<open>
  Each operation on a stored value that is a cart (or missing, or unparseable):
  it returns, the lines stay positive, and what it leaves is again such a value.
\<close>

lemma addItem_positive:
  assumes "quantities_positive ls" "ls \<noteq> Some Json_other" "1 \<le> q"
  shows "\<exists>ls'. addItem now p q ls = Returns ls' \<and> quantities_positive ls'
               \<and> ls' \<noteq> Some Json_other"
proof -
  from getCart_cart [OF assms(2)] obtain c where c: "getCart now ls = Returns (Cart c)"
    by blast
  note pos = stored_positive [OF assms(1) c]
  show ?thesis
  proof (cases "find (\<lambda>i. ci_productId i = doc_id p) (cart_items c)")
    case None
    with c pos assms(3) show ?thesis
      by (simp add: addItem_def saveCart_positive new_line_def)
  next
    case (Some existing)
    have "list_all (\<lambda>i. 1 \<le> ci_quantity i)
            (change_first (doc_id p) (\<lambda>old. old + q) (cart_items c))"
      using pos assms(3) by (intro change_first_positive) auto
    with c Some show ?thesis by (simp add: addItem_def saveCart_positive)
  qed
qed

lemma removeItem_positive:
  assumes "quantities_positive ls" "ls \<noteq> Some Json_other"
  shows "\<exists>ls'. removeItem now p ls = Returns ls' \<and> quantities_positive ls'
               \<and> ls' \<noteq> Some Json_other"
proof -
  from getCart_cart [OF assms(2)] obtain c where c: "getCart now ls = Returns (Cart c)"
    by blast
  note pos = stored_positive [OF assms(1) c]
  then have "list_all (\<lambda>i. 1 \<le> ci_quantity i) (filter (\<lambda>i. ci_productId i \<noteq> p) (cart_items c))"
    by (simp add: list_all_iff)
  with c show ?thesis by (simp add: removeItem_def saveCart_positive)
qed

lemma updateQuantity_positive:
  assumes "quantities_positive ls" "ls \<noteq> Some Json_other"
  shows "\<exists>ls'. updateQuantity now p q ls = Returns ls' \<and> quantities_positive ls'
               \<and> ls' \<noteq> Some Json_other"
proof -
  from getCart_cart [OF assms(2)] obtain c where c: "getCart now ls = Returns (Cart c)"
    by blast
  note pos = stored_positive [OF assms(1) c]
  show ?thesis
  proof (cases "find (\<lambda>i. ci_productId i = p) (cart_items c)")
    case None
    with c assms show ?thesis by (simp add: updateQuantity_def)
  next
    case (Some item)
    show ?thesis
    proof (cases "q \<le> 0")
      case True
      with c Some removeItem_positive [OF assms, of now p] show ?thesis
        by (simp add: updateQuantity_def)
    next
      case False
      have "list_all (\<lambda>i. 1 \<le> ci_quantity i) (change_first p (\<lambda>old. q) (cart_items c))"
        using pos False by (intro change_first_positive) auto
      with c Some False show ?thesis by (simp add: updateQuantity_def saveCart_positive)
    qed
  qed
qed

lemma cart_step_positive:
  assumes "quantities_positive ls" "ls \<noteq> Some Json_other" "1 \<le> added_quantity op"
  shows "\<exists>ls'. cart_step now op ls = Returns ls' \<and> quantities_positive ls'
               \<and> ls' \<noteq> Some Json_other"
proof (cases op)
  case (AddItem p q)
  with assms addItem_positive [of ls q now p] show ?thesis by simp
next
  case (UpdateQuantity p q)
  with updateQuantity_positive [OF assms(1,2)] show ?thesis by simp
next
  case (RemoveItem p)
  with removeItem_positive [OF assms(1,2)] show ?thesis by simp
next
  case Clear
  then show ?thesis by (simp add: clear_def quantities_positive_def)
qed

lemma cart_run_positive:
  assumes "quantities_positive ls" "ls \<noteq> Some Json_other"
    "list_all (\<lambda>(now, op). 1 \<le> added_quantity op) ops"
  shows "\<exists>ls'. cart_run ops ls = Returns ls' \<and> quantities_positive ls'"
  using assms
proof (induction ops arbitrary: ls)
  case Nil
  then show ?case by simp
next
  case (Cons timed ops)
  obtain now op where t: "timed = (now, op)" by (cases timed)
  with Cons.prems have a: "1 \<le> added_quantity op"
    and r: "list_all (\<lambda>(now, op). 1 \<le> added_quantity op) ops" by simp_all
  from cart_step_positive [OF Cons.prems(1,2) a] obtain ls1 where
    s: "cart_step now op ls = Returns ls1" "quantities_positive ls1" "ls1 \<noteq> Some Json_other"
    by blast
  from Cons.IH [OF s(2,3) r] s(1) t show ?case by simp
qed

text \<open>
  On a stored value that is not a cart, \<open>clear\<close> removes the record and the
  other operations throw before they write.
\<close>

lemma cart_step_other:
  "cart_step now op (Some Json_other) = Throws \<or> cart_step now op (Some Json_other) = Returns None"
  by (cases op)
     (simp_all add: addItem_def removeItem_def updateQuantity_def clear_def getCart_cases)

text \<open>
  Claim C8, as the code has it. \<open>updateQuantity\<close>, \<open>removeItem\<close> and
  \<open>clear\<close> keep every line of the persisted cart at quantity 1 or more, and
  so does \<open>addItem\<close> when its quantity argument is at least 1: a run of such
  operations on a cart whose lines are all positive returns, and leaves them
  positive. (On a stored value that is not a cart the run may throw; whenever
  it returns, the lines it leaves are positive.)
\<close>

theorem cart_quantities_stay_positive:
  assumes "quantities_positive ls" "list_all (\<lambda>(now, op). 1 \<le> added_quantity op) ops"
  shows "(ls \<noteq> Some Json_other \<longrightarrow>
            (\<exists>ls'. cart_run ops ls = Returns ls' \<and> quantities_positive ls'))
       \<and> (\<forall>ls'. cart_run ops ls = Returns ls' \<longrightarrow> quantities_positive ls')"
proof (cases "ls = Some Json_other")
  case False
  from cart_run_positive [OF assms(1) False assms(2)] show ?thesis by auto
next
  case True
  have "\<forall>ls'. cart_run ops (Some Json_other) = Returns ls' \<longrightarrow> quantities_positive ls'"
  proof (cases ops)
    case Nil
    then show ?thesis by (simp add: quantities_positive_def)
  next
    case (Cons timed rest)
    obtain now op where t: "timed = (now, op)" by (cases timed)
    from assms(2) Cons have r: "list_all (\<lambda>(now, op). 1 \<le> added_quantity op) rest"
      by simp
    from cart_step_other [of now op] show ?thesis
    proof
      assume "cart_step now op (Some Json_other) = Throws"
      with Cons t show ?thesis by simp
    next
      assume s: "cart_step now op (Some Json_other) = Returns None"
      have "quantities_positive None" "None \<noteq> Some Json_other"
        by (simp_all add: quantities_positive_def)
      from cart_run_positive [OF this r] s Cons t show ?thesis by auto
    qed
  qed
  with True show ?thesis by simp
qed

theorem cart_quantities_stay_positive_witness:
  "\<exists>ls'. cart_run [(1, AddItem shop_candle 2), (2, UpdateQuantity ''candle'' 0),
                     (3, AddItem shop_candle 1), (4, UpdateQuantity ''candle'' 5),
                     (5, RemoveItem ''tea''), (6, Clear)] None = Returns ls'
          \<and> quantities_positive ls'"
proof -
  have "quantities_positive None" by (simp add: quantities_positive_def)
  from cart_quantities_stay_positive [OF this, of "[(1, AddItem shop_candle 2), (2, UpdateQuantity ''candle'' 0),
                     (3, AddItem shop_candle 1), (4, UpdateQuantity ''candle'' 5),
                     (5, RemoveItem ''tea''), (6, Clear)]"]
  show ?thesis by simp
qed

text \<open>
  \<open>addItem\<close> stores the quantity it is given: adding a product with
  quantity 0 to the empty cart persists a line with quantity 0.
\<close>

theorem addItem_zero_quantity:
  "addItem 1 shop_candle 0 None
     = Returns (Some (Json \<lparr> cart_items = [\<lparr> ci_productId = ''candle'', ci_name = ''Candle'',
                  ci_price = 1500, ci_quantity = 0, ci_category = ''physical'',
                  ci_image = ''candle.jpg'' \<rparr>], updatedAt = 1 \<rparr>))
   \<and> \<not> quantities_positive (Some (Json \<lparr> cart_items = [\<lparr> ci_productId = ''candle'', ci_name = ''Candle'',
                  ci_price = 1500, ci_quantity = 0, ci_category = ''physical'',
                  ci_image = ''candle.jpg'' \<rparr>], updatedAt = 1 \<rparr>))"
  by (simp add: addItem_def getCart_def empty_cart_def saveCart_def new_line_def shop_candle_def
        quantities_positive_def)

section \<open>The Webhook Reconciler\<close>

subsection \<open>What each stage leaves in the store\<close>

lemma decrement_frame [simp]:
  "orders (decrement pid q fs) = orders fs" "mail (decrement pid q fs) = mail fs"
  by (simp_all add: decrement_def split: option.splits)

lemma decrement_other:
  "pid' \<noteq> pid \<Longrightarrow> products (decrement pid' q fs) pid = products fs pid"
  by (simp add: decrement_def split: option.splits)

lemma decrement_unlimited:
  "products fs pid = Some p \<Longrightarrow> inventory p = - 1 \<Longrightarrow> products (decrement pid' q fs) pid = Some p"
  by (cases "pid' = pid") (auto simp: decrement_def split: option.splits)

lemma decrement_finite:
  "products fs pid = Some p \<Longrightarrow> inventory p \<noteq> - 1
   \<Longrightarrow> products (decrement pid q fs) pid = Some (p\<lparr> inventory := inventory p - q \<rparr>)"
  by (simp add: decrement_def)

lemma decrement_url:
  "map_option digitalFileUrl (products (decrement pid' q fs) pid)
     = map_option digitalFileUrl (products fs pid)"
  by (simp add: decrement_def split: option.splits)

lemma decrement_inventory_frame:
  "orders (store_after (decrement_inventory its fs sch)) = orders fs
   \<and> mail (store_after (decrement_inventory its fs sch)) = mail fs"
  by (induction its fs sch rule: decrement_inventory.induct) simp_all

lemma decrement_inventory_url:
  "map_option digitalFileUrl (products (store_after (decrement_inventory its fs sch)) pid)
     = map_option digitalFileUrl (products fs pid)"
  by (induction its fs sch rule: decrement_inventory.induct) (simp_all add: decrement_url)

lemma decrement_inventory_unlimited:
  "products fs pid = Some p \<Longrightarrow> inventory p = - 1
   \<Longrightarrow> products (store_after (decrement_inventory its fs sch)) pid = Some p"
  by (induction its fs sch rule: decrement_inventory.induct) (simp_all add: decrement_unlimited)

lemma fetch_links_store: "store_after (fetch_links its dl fs sch) = fs"
  by (induction its dl fs sch rule: fetch_links.induct) (simp_all split: option.splits)

lemma fetch_links_Finished:
  "fetch_links its dl fs sch = Finished dl' fs' sch' \<Longrightarrow> fs' = fs"
  using fetch_links_store [of its dl fs sch] by simp

lemma fetch_links_Threw:
  "fetch_links its dl fs sch = Threw fs' \<Longrightarrow> fs' = fs"
  using fetch_links_store [of its dl fs sch] by simp

lemma mark_delivered_frame [simp]:
  "products (mark_delivered k fs) = products fs" "mail (mark_delivered k fs) = mail fs"
  "length (orders (mark_delivered k fs)) = length (orders fs)"
  by (simp_all add: mark_delivered_def)

lemma mark_delivered_sessions [simp]:
  "map stripeSessionId (orders (mark_delivered k fs)) = map stripeSessionId (orders fs)"
  by (simp add: mark_delivered_def map_update list_update_same_conv)

lemma add_mail_frame [simp]:
  "products (add_mail m fs) = products fs" "orders (add_mail m fs) = orders fs"
  "mail (add_mail m fs) = mail fs @ [m]"
  by (simp_all add: add_mail_def)

lemma deliver_digital_frame:
  "products (store_after (deliver_digital s its k fs sch)) = products fs
   \<and> map stripeSessionId (orders (store_after (deliver_digital s its k fs sch)))
       = map stripeSessionId (orders fs)"
proof (cases "fetch_links (filter (\<lambda>i. oi_category i = ''digital'') its) [] fs sch")
  case (Threw fs')
  with fetch_links_Threw [OF Threw] show ?thesis
    by (simp add: deliver_digital_def Let_def)
next
  case (Finished dl fs' sch')
  with fetch_links_Finished [OF Finished] show ?thesis
    by (simp add: deliver_digital_def Let_def)
qed

lemma process_completed_unfold:
  "process_completed s fs sch =
     (case parse_orderItems (session_metadata s) of
        None \<Rightarrow> Threw fs
      | Some its \<Rightarrow>
          if rejects sch then Threw fs
          else
            (case decrement_inventory its (fs\<lparr> orders := orders fs @ [new_order s its] \<rparr>) (tl sch) of
               Threw fs' \<Rightarrow> Threw fs'
             | Finished u fs2 sch2 \<Rightarrow>
                 if rejects sch2 then Threw fs2
                 else deliver_digital s its (length (orders fs))
                        (add_mail \<lparr> mail_to = customer_email s,
                                    content = Order_confirmation (length (orders fs)) its
                                                (amount_total s) \<rparr> fs2)
                        (tl sch2)))"
  by (simp add: process_completed_def Let_def split: option.splits)

lemma process_products:
  "products (store_after (process_completed s fs sch)) = products fs
   \<or> (\<exists>its. parse_orderItems (session_metadata s) = Some its
         \<and> products (store_after (process_completed s fs sch))
             = products (store_after (decrement_inventory its
                  (fs\<lparr> orders := orders fs @ [new_order s its] \<rparr>) (tl sch))))"
proof (cases "parse_orderItems (session_metadata s)")
  case None
  then show ?thesis by (simp add: process_completed_unfold)
next
  case (Some its)
  show ?thesis
  proof (cases "rejects sch")
    case True
    with Some show ?thesis by (simp add: process_completed_unfold)
  next
    case False
    show ?thesis
    proof (cases "decrement_inventory its (fs\<lparr> orders := orders fs @ [new_order s its] \<rparr>) (tl sch)")
      case (Threw fs')
      with Some False show ?thesis by (simp add: process_completed_unfold)
    next
      case (Finished u fs2 sch2)
      with Some False show ?thesis
        by (simp add: process_completed_unfold deliver_digital_frame)
    qed
  qed
qed

lemma process_sessions:
  "map stripeSessionId (orders (store_after (process_completed s fs sch)))
     = (if parse_orderItems (session_metadata s) \<noteq> None \<and> \<not> rejects sch
        then map stripeSessionId (orders fs) @ [session_id s]
        else map stripeSessionId (orders fs))"
proof (cases "parse_orderItems (session_metadata s)")
  case None
  then show ?thesis by (simp add: process_completed_unfold)
next
  case (Some its)
  show ?thesis
  proof (cases "rejects sch")
    case True
    with Some show ?thesis by (simp add: process_completed_unfold)
  next
    case False
    let ?fs1 = "fs\<lparr> orders := orders fs @ [new_order s its] \<rparr>"
    have o: "orders (store_after (decrement_inventory its ?fs1 (tl sch)))
               = orders fs @ [new_order s its]"
      using decrement_inventory_frame [of its ?fs1 "tl sch"] by simp
    show ?thesis
    proof (cases "decrement_inventory its ?fs1 (tl sch)")
      case (Threw fs')
      with Some False o show ?thesis by (simp add: process_completed_unfold new_order_def)
    next
      case (Finished u fs2 sch2)
      with Some False o show ?thesis
        by (simp add: process_completed_unfold deliver_digital_frame new_order_def)
    qed
  qed
qed

lemma orders_for_length:
  "length (orders_for sid fs) = length (filter (\<lambda>x. x = sid) (map stripeSessionId (orders fs)))"
  by (simp add: orders_for_def filter_map comp_def)

subsection \<open>The response\<close>

text \<open>
  Claim C2, as the code has it. A request whose signature fails verification
  is answered 400 with the verification message. Every verified request is
  answered 200 with \<open>{received: true}\<close>, whatever the event type and whether
  or not the processing raised: the \<open>catch\<close> of the processing only logs.
\<close>

theorem webhook_response_by_verification:
  "fst (stripeWebhook constructEvent req fs sch)
     = (case constructEvent (rawBody req) (stripe_signature req) of
          Inl message \<Rightarrow> \<lparr> status = 400, body = Text_body (''Webhook Error: '' @ message) \<rparr>
        | Inr ev \<Rightarrow> \<lparr> status = 200, body = Received_json \<rparr>)"
  by (simp add: stripeWebhook_def split: sum.splits)

text \<open>
  A verified \<open>checkout.session.completed\<close> event whose order creation is
  rejected by the store: the processing throws, nothing is written, and the
  answer is 200.
\<close>

theorem processing_failure_acknowledged:
  "stripeWebhook signed_events (delivery ''A'') (shop_store 5) [True]
     = (\<lparr> status = 200, body = Received_json \<rparr>, shop_store 5)
   \<and> process_completed (paid_session ''cs_A'' [order_candle 2]) (shop_store 5) [True]
     = Threw (shop_store 5)"
  by (simp add: stripeWebhook_def signed_events_def delivery_def
        process_completed_def paid_session_def rejects_def)

subsection \<open>Inventory\<close>

lemma purchased_Cons:
  "purchased pid (item # rest) =
     (if oi_category item = ''physical'' \<and> oi_productId item = pid
      then oi_quantity item + purchased pid rest else purchased pid rest)"
  by (simp add: purchased_def)

lemma purchased_nonneg: "nonnegative its \<Longrightarrow> 0 \<le> purchased pid its"
  by (induction its) (simp_all add: purchased_Cons nonnegative_def, simp add: purchased_def)

lemma decrement_inventory_bounds:
  assumes "nonnegative its" "products fs pid = Some p" "purchased pid its \<le> inventory p"
  shows "\<exists>p'. products (store_after (decrement_inventory its fs sch)) pid = Some p'
            \<and> inventory p - purchased pid its \<le> inventory p'
            \<and> inventory p' \<le> inventory p"
  using assms
proof (induction its arbitrary: fs sch p)
  case Nil
  then show ?case by (simp add: purchased_def)
next
  case (Cons item rest)
  from Cons.prems(1) have q: "0 \<le> oi_quantity item" and nn: "nonnegative rest"
    by (simp_all add: nonnegative_def)
  note rest_nonneg = purchased_nonneg [OF nn, of pid]
  show ?case
  proof (cases "oi_category item = ''physical''")
    case False
    with Cons.prems have "purchased pid rest \<le> inventory p" by (simp add: purchased_Cons)
    from Cons.IH [OF nn Cons.prems(2) this, of sch] False show ?thesis
      by (simp add: purchased_Cons)
  next
    case True
    show ?thesis
    proof (cases "rejects sch")
      case r: True
      with True Cons.prems rest_nonneg q show ?thesis
        by (auto simp: purchased_Cons split: if_splits)
    next
      case r: False
      let ?fs' = "decrement (oi_productId item) (oi_quantity item) fs"
      show ?thesis
      proof (cases "oi_productId item = pid")
        case same: True
        from Cons.prems(3) True same rest_nonneg q have fin: "inventory p \<noteq> - 1"
          by (simp add: purchased_Cons)
        have p': "products ?fs' pid = Some (p\<lparr> inventory := inventory p - oi_quantity item \<rparr>)"
          using decrement_finite [OF Cons.prems(2) fin] same by simp
        have le: "purchased pid rest \<le> inventory (p\<lparr> inventory := inventory p - oi_quantity item \<rparr>)"
          using Cons.prems(3) True same by (simp add: purchased_Cons)
        from Cons.IH [OF nn p' le, of "tl sch"] True r same q show ?thesis
          by (auto simp: purchased_Cons)
      next
        case other: False
        have p': "products ?fs' pid = Some p"
          using decrement_other [OF other] Cons.prems(2) by simp
        have le: "purchased pid rest \<le> inventory p"
          using Cons.prems(3) other by (simp add: purchased_Cons)
        from Cons.IH [OF nn p' le, of "tl sch"] True r other show ?thesis
          by (simp add: purchased_Cons)
      qed
    qed
  qed
qed

lemma decrement_inventory_calm:
  assumes "nonnegative its" "products fs pid = Some p" "purchased pid its \<le> inventory p"
  shows "\<exists>fs'. decrement_inventory its fs [] = Finished () fs' []
            \<and> products fs' pid = Some (p\<lparr> inventory := inventory p - purchased pid its \<rparr>)"
  using assms
proof (induction its arbitrary: fs p)
  case Nil
  then show ?case by (simp add: purchased_def)
next
  case (Cons item rest)
  from Cons.prems(1) have q: "0 \<le> oi_quantity item" and nn: "nonnegative rest"
    by (simp_all add: nonnegative_def)
  note rest_nonneg = purchased_nonneg [OF nn, of pid]
  show ?case
  proof (cases "oi_category item = ''physical''")
    case False
    with Cons.prems have "purchased pid rest \<le> inventory p" by (simp add: purchased_Cons)
    from Cons.IH [OF nn Cons.prems(2) this] False show ?thesis
      by (simp add: purchased_Cons)
  next
    case True
    let ?fs' = "decrement (oi_productId item) (oi_quantity item) fs"
    show ?thesis
    proof (cases "oi_productId item = pid")
      case same: True
      from Cons.prems(3) True same rest_nonneg q have fin: "inventory p \<noteq> - 1"
        by (simp add: purchased_Cons)
      have p': "products ?fs' pid = Some (p\<lparr> inventory := inventory p - oi_quantity item \<rparr>)"
        using decrement_finite [OF Cons.prems(2) fin] same by simp
      have le: "purchased pid rest \<le> inventory (p\<lparr> inventory := inventory p - oi_quantity item \<rparr>)"
        using Cons.prems(3) True same by (simp add: purchased_Cons)
      from Cons.IH [OF nn p' le] True same show ?thesis
        by (auto simp: purchased_Cons rejects_def algebra_simps)
    next
      case other: False
      have p': "products ?fs' pid = Some p"
        using decrement_other [OF other] Cons.prems(2) by simp
      have le: "purchased pid rest \<le> inventory p"
        using Cons.prems(3) other by (simp add: purchased_Cons)
      from Cons.IH [OF nn p' le] True other show ?thesis
        by (simp add: purchased_Cons rejects_def)
    qed
  qed
qed

lemma webhook_bounds:
  assumes nn: "nonnegative (ordered_items constructEvent req)"
    and p: "products fs pid = Some p"
    and le: "purchased pid (ordered_items constructEvent req) \<le> inventory p"
  shows "\<exists>p'. products (snd (stripeWebhook constructEvent req fs sch)) pid = Some p'
            \<and> inventory p - purchased pid (ordered_items constructEvent req) \<le> inventory p'
            \<and> inventory p' \<le> inventory p"
proof -
  note ge = purchased_nonneg [OF nn, of pid]
  have same: "products (snd (stripeWebhook constructEvent req fs sch)) pid = Some p \<Longrightarrow> ?thesis"
    using ge by simp
  show ?thesis
  proof (cases "constructEvent (rawBody req) (stripe_signature req)")
    case (Inl message)
    with p same show ?thesis by (simp add: stripeWebhook_def)
  next
    case (Inr ev)
    show ?thesis
    proof (cases "event_type ev = ''checkout.session.completed''")
      case False
      with Inr p same show ?thesis by (simp add: stripeWebhook_def)
    next
      case True
      let ?s = "data_object ev"
      have w: "snd (stripeWebhook constructEvent req fs sch) = store_after (process_completed ?s fs sch)"
        using Inr True by (simp add: stripeWebhook_def)
      from process_products [of ?s fs sch] show ?thesis
      proof
        assume "products (store_after (process_completed ?s fs sch)) = products fs"
        with w p same show ?thesis by simp
      next
        assume "\<exists>its. parse_orderItems (session_metadata ?s) = Some its
          \<and> products (store_after (process_completed ?s fs sch))
             = products (store_after (decrement_inventory its
                  (fs\<lparr> orders := orders fs @ [new_order ?s its] \<rparr>) (tl sch)))"
        then obtain its where its: "parse_orderItems (session_metadata ?s) = Some its"
          and pr: "products (store_after (process_completed ?s fs sch))
             = products (store_after (decrement_inventory its
                  (fs\<lparr> orders := orders fs @ [new_order ?s its] \<rparr>) (tl sch)))"
          by blast
        have oi: "ordered_items constructEvent req = its"
          using Inr True its by (simp add: ordered_items_def)
        have p1: "products (fs\<lparr> orders := orders fs @ [new_order ?s its] \<rparr>) pid = Some p"
          using p by simp
        from decrement_inventory_bounds [OF _ p1, of its "tl sch"] nn le oi w pr
        show ?thesis by simp
      qed
    qed
  qed
qed

lemma webhook_calm:
  assumes ev: "constructEvent (rawBody req) (stripe_signature req) = Inr ev"
    "event_type ev = ''checkout.session.completed''"
    and its: "parse_orderItems (session_metadata (data_object ev)) = Some its"
    and nn: "nonnegative its"
    and p: "products fs pid = Some p"
    and le: "purchased pid its \<le> inventory p"
  shows "products (snd (stripeWebhook constructEvent req fs [])) pid
           = Some (p\<lparr> inventory := inventory p - purchased pid its \<rparr>)
       \<and> map stripeSessionId (orders (snd (stripeWebhook constructEvent req fs [])))
           = map stripeSessionId (orders fs) @ [session_id (data_object ev)]"
proof -
  let ?s = "data_object ev"
  let ?fs1 = "fs\<lparr> orders := orders fs @ [new_order ?s its] \<rparr>"
  have w: "snd (stripeWebhook constructEvent req fs []) = store_after (process_completed ?s fs [])"
    using ev by (simp add: stripeWebhook_def)
  have p1: "products ?fs1 pid = Some p" using p by simp
  from decrement_inventory_calm [OF nn p1 le] obtain fs2 where
    d: "decrement_inventory its ?fs1 [] = Finished () fs2 []"
       "products fs2 pid = Some (p\<lparr> inventory := inventory p - purchased pid its \<rparr>)"
    by blast
  have "products (store_after (process_completed ?s fs [])) = products fs2"
    using its d(1) by (simp add: process_completed_unfold rejects_def deliver_digital_frame)
  moreover have "map stripeSessionId (orders (store_after (process_completed ?s fs [])))
           = map stripeSessionId (orders fs) @ [session_id ?s]"
    using its by (simp add: process_sessions rejects_def)
  ultimately show ?thesis using w d(2) by simp
qed

lemma webhook_unlimited:
  assumes "products fs pid = Some p" "inventory p = - 1"
  shows "products (snd (stripeWebhook constructEvent req fs sch)) pid = Some p"
proof -
  have "products (store_after (process_completed s fs sch)) pid = Some p" for s
    using process_products [of s fs sch] assms
      decrement_inventory_unlimited [of "fs\<lparr> orders := orders fs @ [new_order s its] \<rparr>" pid p its "tl sch" for its]
    by auto
  then show ?thesis
    using assms by (simp add: stripeWebhook_def split: sum.splits)
qed

text \<open>
  Claim C5. A product whose inventory is \<open>-1\<close> keeps its document
  unchanged, inventory \<open>-1\<close> included, through any run of deliveries,
  whatever they order and whichever store calls are rejected.
\<close>

theorem unlimited_inventory_unchanged:
  assumes "products fs pid = Some p" "inventory p = - 1"
  shows "products (deliveries constructEvent ds fs) pid = Some p
       \<and> inventory_of pid (deliveries constructEvent ds fs) = Some (- 1)"
proof -
  have "products (deliveries constructEvent ds fs) pid = Some p"
    using assms(1)
  proof (induction ds arbitrary: fs)
    case Nil
    then show ?case by simp
  next
    case (Cons d ds)
    obtain req sch where d: "d = (req, sch)" by (cases d)
    from webhook_unlimited [OF Cons.prems assms(2)]
    have "products (snd (stripeWebhook constructEvent req fs sch)) pid = Some p" .
    from Cons.IH [OF this] d show ?case by simp
  qed
  with assms(2) show ?thesis by (simp add: inventory_of_def)
qed

theorem unlimited_inventory_unchanged_witness:
  "inventory_of ''candle''
     (deliveries signed_events [(delivery ''A'', []), (delivery ''B'', [])] unlimited_store)
     = Some (- 1)"
  using unlimited_inventory_unchanged [of unlimited_store "''candle''" "candle\<lparr> inventory := - 1 \<rparr>" signed_events
       "[(delivery ''A'', []), (delivery ''B'', [])]"]
  by (simp add: unlimited_store_def)

lemma deliveries_bounds:
  assumes "products fs pid = Some p"
    and "list_all (\<lambda>(req, sch). nonnegative (ordered_items constructEvent req)) ds"
    and "demand constructEvent pid ds \<le> inventory p"
  shows "\<exists>p'. products (deliveries constructEvent ds fs) pid = Some p'
            \<and> 0 \<le> inventory p'
            \<and> inventory p - demand constructEvent pid ds \<le> inventory p'
            \<and> inventory p' \<le> inventory p"
  using assms
proof (induction ds arbitrary: fs p)
  case Nil
  then show ?case by simp
next
  case (Cons d ds)
  obtain req sch where d: "d = (req, sch)" by (cases d)
  from Cons.prems(2) d have nn: "nonnegative (ordered_items constructEvent req)"
    and rest: "list_all (\<lambda>(req, sch). nonnegative (ordered_items constructEvent req)) ds"
    by simp_all
  have dn: "0 \<le> demand constructEvent pid ds" using rest
    by (induction ds) (auto simp: purchased_nonneg)
  from Cons.prems(3) d dn
  have le: "purchased pid (ordered_items constructEvent req) \<le> inventory p" by simp
  from webhook_bounds [OF nn Cons.prems(1) le, of sch] obtain p1 where
    p1: "products (snd (stripeWebhook constructEvent req fs sch)) pid = Some p1"
      "inventory p - purchased pid (ordered_items constructEvent req) \<le> inventory p1"
      "inventory p1 \<le> inventory p"
    by blast
  from Cons.prems(3) d p1(2) have "demand constructEvent pid ds \<le> inventory p1" by simp
  from Cons.IH [OF p1(1) rest this] obtain p' where
    "products (deliveries constructEvent ds (snd (stripeWebhook constructEvent req fs sch))) pid
       = Some p'"
    "0 \<le> inventory p'" "inventory p1 - demand constructEvent pid ds \<le> inventory p'"
    "inventory p' \<le> inventory p1"
    by blast
  with p1 d show ?case by auto
qed

text \<open>
  Claim C4, as the code has it. The transactional decrement has no floor: on a
  product with finite inventory it writes the inventory it read less the
  quantity, whatever the two are. Through a run of deliveries, whichever store
  calls are rejected, of orders whose quantities are not negative, the
  inventory of a product stays at or above zero when the quantity that the
  orders' physical lines ask of it, in total, is within the inventory at the
  start: it then ends between the start less that total and the start.
\<close>

theorem inventory_floor_within_stock:
  assumes "products fs pid = Some p"
  shows "(inventory p \<noteq> - 1 \<longrightarrow>
            inventory_of pid (decrement pid q fs) = Some (inventory p - q))
       \<and> (list_all (\<lambda>(req, sch). nonnegative (ordered_items constructEvent req)) ds
          \<and> demand constructEvent pid ds \<le> inventory p \<longrightarrow>
            (\<exists>p'. products (deliveries constructEvent ds fs) pid = Some p'
                \<and> 0 \<le> inventory p'
                \<and> inventory p - demand constructEvent pid ds \<le> inventory p'
                \<and> inventory p' \<le> inventory p))"
proof (intro conjI impI)
  assume "inventory p \<noteq> - 1"
  from decrement_finite [OF assms this, of q]
  show "inventory_of pid (decrement pid q fs) = Some (inventory p - q)"
    by (simp add: inventory_of_def)
next
  assume "list_all (\<lambda>(req, sch). nonnegative (ordered_items constructEvent req)) ds
          \<and> demand constructEvent pid ds \<le> inventory p"
  then show "\<exists>p'. products (deliveries constructEvent ds fs) pid = Some p'
                \<and> 0 \<le> inventory p'
                \<and> inventory p - demand constructEvent pid ds \<le> inventory p'
                \<and> inventory p' \<le> inventory p"
    using deliveries_bounds [where constructEvent = constructEvent, OF assms] by blast
qed

theorem inventory_floor_within_stock_witness:
  "inventory_of ''candle'' (decrement ''candle'' 7 (shop_store 5)) = Some (- 2)
   \<and> (\<exists>p'. products (deliveries signed_events
                    [(delivery ''A'', [False, True]), (delivery ''B'', [])]
                    (shop_store 5)) ''candle'' = Some p'
      \<and> 0 \<le> inventory p' \<and> 1 \<le> inventory p' \<and> inventory p' \<le> 5)"
proof -
  have p: "products (shop_store 5) ''candle'' = Some (candle\<lparr> inventory := 5 \<rparr>)"
    by (simp add: shop_store_def)
  note both = inventory_floor_within_stock [where constructEvent = signed_events
      and ds = "[(delivery ''A'', [False, True]), (delivery ''B'', [])]" and q = 7, OF p]
  from both have a: "inventory_of ''candle'' (decrement ''candle'' 7 (shop_store 5)) = Some (- 2)"
    by simp
  have h: "list_all (\<lambda>(req, sch). nonnegative (ordered_items signed_events req))
             [(delivery ''A'', [False, True]), (delivery ''B'', [])]
         \<and> demand signed_events ''candle''
             [(delivery ''A'', [False, True]), (delivery ''B'', [])]
             \<le> inventory (candle\<lparr> inventory := 5 \<rparr>)"
    by (simp add: signed_events_def delivery_def paid_session_def
          order_candle_def nonnegative_def purchased_def ordered_items_def)
  have d: "demand signed_events ''candle''
             [(delivery ''A'', [False, True]), (delivery ''B'', [])] = 4"
    by (simp add: signed_events_def delivery_def paid_session_def
          order_candle_def purchased_def ordered_items_def)
  from both h have "\<exists>p'. products (deliveries signed_events
                    [(delivery ''A'', [False, True]), (delivery ''B'', [])]
                    (shop_store 5)) ''candle'' = Some p'
      \<and> 0 \<le> inventory p'
      \<and> inventory (candle\<lparr> inventory := 5 \<rparr>)
           - demand signed_events ''candle''
               [(delivery ''A'', [False, True]), (delivery ''B'', [])] \<le> inventory p'
      \<and> inventory p' \<le> inventory (candle\<lparr> inventory := 5 \<rparr>)"
    by blast
  with d have "\<exists>p'. products (deliveries signed_events
                    [(delivery ''A'', [False, True]), (delivery ''B'', [])]
                    (shop_store 5)) ''candle'' = Some p'
      \<and> 0 \<le> inventory p' \<and> 1 \<le> inventory p' \<and> inventory p' \<le> 5"
    by simp
  with a show ?thesis by simp
qed

text \<open>
  Two sessions of two candles each, both paid while the stock is two: the
  second reconciliation writes \<open>0 - 2\<close>.
\<close>

theorem inventory_below_zero:
  "inventory_of ''candle''
      (deliveries signed_events [(delivery ''A'', []), (delivery ''B'', [])] (shop_store 2))
     = Some (- 2)"
  by (simp add: stripeWebhook_def signed_events_def delivery_def shop_store_def candle_def
        process_completed_def paid_session_def order_candle_def rejects_def decrement_def
        deliver_digital_def add_mail_def new_order_def orders_for_def inventory_of_def Let_def)

subsection \<open>Redelivery\<close>

lemma webhook_sessions:
  assumes "constructEvent (rawBody req) (stripe_signature req) = Inr ev"
    "event_type ev = ''checkout.session.completed''"
    "parse_orderItems (session_metadata (data_object ev)) = Some its"
    "\<not> rejects sch"
  shows "map stripeSessionId (orders (snd (stripeWebhook constructEvent req fs sch)))
           = map stripeSessionId (orders fs) @ [session_id (data_object ev)]"
  using assms by (simp add: stripeWebhook_def process_sessions)

lemma redelivery_orders:
  assumes "constructEvent (rawBody req) (stripe_signature req) = Inr ev"
    "event_type ev = ''checkout.session.completed''"
    "parse_orderItems (session_metadata (data_object ev)) = Some its"
  shows "length (orders_for (session_id (data_object ev))
            (deliveries constructEvent (replicate n (req, [])) fs))
           = length (orders_for (session_id (data_object ev)) fs) + n"
proof (induction n arbitrary: fs)
  case 0
  then show ?case by simp
next
  case (Suc n)
  have "\<not> rejects []" by (simp add: rejects_def)
  from webhook_sessions [where constructEvent = constructEvent and req = req, OF assms this, of fs]
  have "length (orders_for (session_id (data_object ev))
           (snd (stripeWebhook constructEvent req fs [])))
          = Suc (length (orders_for (session_id (data_object ev)) fs))"
    by (simp add: orders_for_length)
  with Suc.IH [of "snd (stripeWebhook constructEvent req fs [])"] show ?case by simp
qed

lemma redelivery_inventory:
  assumes ev: "constructEvent (rawBody req) (stripe_signature req) = Inr ev"
    "event_type ev = ''checkout.session.completed''"
    and its: "parse_orderItems (session_metadata (data_object ev)) = Some its"
    and nn: "nonnegative its"
    and p: "products fs pid = Some p"
    and le: "int n * purchased pid its \<le> inventory p"
  shows "inventory_of pid (deliveries constructEvent (replicate n (req, [])) fs)
           = Some (inventory p - int n * purchased pid its)"
  using p le
proof (induction n arbitrary: fs p)
  case 0
  then show ?case by (simp add: inventory_of_def)
next
  case (Suc n)
  note ge = purchased_nonneg [OF nn, of pid]
  have "0 \<le> int n * purchased pid its" using ge by simp
  with Suc.prems(2) have one: "purchased pid its \<le> inventory p"
    by (simp add: algebra_simps)
  let ?fs1 = "snd (stripeWebhook constructEvent req fs [])"
  let ?p1 = "p\<lparr> inventory := inventory p - purchased pid its \<rparr>"
  from webhook_calm [where constructEvent = constructEvent and req = req,
      OF ev its nn Suc.prems(1) one]
  have p1: "products ?fs1 pid = Some ?p1" by simp
  have le1: "int n * purchased pid its \<le> inventory ?p1"
    using Suc.prems(2) by (simp add: algebra_simps)
  from Suc.IH [OF p1 le1] show ?case
    by (simp add: algebra_simps)
qed

text \<open>The products after a round of transactions depend on the products only.\<close>

lemma decrement_products:
  "products fs = products fs' \<Longrightarrow> products (decrement pid q fs) = products (decrement pid q fs')"
  by (simp add: decrement_def split: option.splits)

lemma decrement_all_products:
  "products fs = products fs' \<Longrightarrow> products (decrement_all its fs) = products (decrement_all its fs')"
proof -
  have "products fs = products fs'
        \<Longrightarrow> products (fold (\<lambda>i. decrement (oi_productId i) (oi_quantity i)) xs fs)
          = products (fold (\<lambda>i. decrement (oi_productId i) (oi_quantity i)) xs fs')"
    for xs :: "order_item list"
  proof (induction xs arbitrary: fs fs')
    case Nil
    then show ?case by simp
  next
    case (Cons x xs)
    from decrement_products [OF Cons.prems]
    have "products (decrement (oi_productId x) (oi_quantity x) fs)
            = products (decrement (oi_productId x) (oi_quantity x) fs')" .
    from Cons.IH [OF this] show ?case by simp
  qed
  then show "products fs = products fs'
    \<Longrightarrow> products (decrement_all its fs) = products (decrement_all its fs')"
    by (simp add: decrement_all_def)
qed

lemma decrement_rounds_products:
  "products fs = products fs'
   \<Longrightarrow> products ((decrement_all its ^^ n) fs) = products ((decrement_all its ^^ n) fs')"
proof (induction n)
  case 0
  then show ?case by simp
next
  case (Suc n)
  from decrement_all_products [OF Suc.IH [OF Suc.prems], of its] show ?case by simp
qed

lemma decrement_inventory_all:
  "decrement_inventory its fs [] = Finished () (decrement_all its fs) []"
proof (induction its arbitrary: fs)
  case Nil
  then show ?case by (simp add: decrement_all_def)
next
  case (Cons item rest)
  have "decrement_all (item # rest) fs =
          (if oi_category item = ''physical''
           then decrement_all rest (decrement (oi_productId item) (oi_quantity item) fs)
           else decrement_all rest fs)"
    by (simp add: decrement_all_def)
  with Cons.IH show ?case by (simp add: rejects_def)
qed

lemma webhook_runs_decrements:
  assumes "constructEvent (rawBody req) (stripe_signature req) = Inr ev"
    "event_type ev = ''checkout.session.completed''"
    "parse_orderItems (session_metadata (data_object ev)) = Some its"
  shows "products (snd (stripeWebhook constructEvent req fs [])) = products (decrement_all its fs)"
proof -
  let ?s = "data_object ev"
  let ?fs1 = "fs\<lparr> orders := orders fs @ [new_order ?s its] \<rparr>"
  have "products (store_after (process_completed ?s fs [])) = products (decrement_all its ?fs1)"
    using assms(3)
    by (simp add: process_completed_unfold decrement_inventory_all rejects_def
          deliver_digital_frame)
  moreover have "products (decrement_all its ?fs1) = products (decrement_all its fs)"
    by (rule decrement_all_products) simp
  ultimately show ?thesis using assms(1,2) by (simp add: stripeWebhook_def)
qed

lemma redelivery_runs_decrements:
  assumes "constructEvent (rawBody req) (stripe_signature req) = Inr ev"
    "event_type ev = ''checkout.session.completed''"
    "parse_orderItems (session_metadata (data_object ev)) = Some its"
  shows "products (deliveries constructEvent (replicate n (req, [])) fs)
           = products ((decrement_all its ^^ n) fs)"
proof (induction n arbitrary: fs)
  case 0
  then show ?case by simp
next
  case (Suc n)
  let ?fs1 = "snd (stripeWebhook constructEvent req fs [])"
  from webhook_runs_decrements [where constructEvent = constructEvent and req = req, OF assms]
  have "products ?fs1 = products (decrement_all its fs)" .
  from decrement_rounds_products [where its = its and n = n, OF this]
  have "products ((decrement_all its ^^ n) ?fs1)
          = products ((decrement_all its ^^ n) (decrement_all its fs))" .
  with Suc.IH [of ?fs1] show ?case by (simp add: funpow_swap1)
qed

text \<open>
  Claim C1, as the code has it. The handler adds the order with
  \<open>orders.add\<close>, under a fresh id, and does not look for an order of the
  same payment session. Delivering the same verified
  \<open>checkout.session.completed\<close> event \<open>n\<close> times, every store call going
  through, adds \<open>n\<close> orders of that session and runs the order's inventory
  transactions \<open>n\<close> times, once for each delivery: the products end as after
  \<open>n\<close> rounds of the order's decrements. Where the quantities are not
  negative and the stock of a product covers \<open>n\<close> times the quantity ordered
  of it, its inventory ends at the stock less \<open>n\<close> times that quantity.
\<close>

theorem redelivery_adds_an_order_each_time:
  assumes "constructEvent (rawBody req) (stripe_signature req) = Inr ev"
    and "event_type ev = ''checkout.session.completed''"
    and "parse_orderItems (session_metadata (data_object ev)) = Some its"
  shows "length (orders_for (session_id (data_object ev))
            (deliveries constructEvent (replicate n (req, [])) fs))
           = length (orders_for (session_id (data_object ev)) fs) + n
       \<and> products (deliveries constructEvent (replicate n (req, [])) fs)
           = products ((decrement_all its ^^ n) fs)
       \<and> (\<forall>pid p. nonnegative its \<and> products fs pid = Some p
                   \<and> int n * purchased pid its \<le> inventory p
             \<longrightarrow> inventory_of pid (deliveries constructEvent (replicate n (req, [])) fs)
                   = Some (inventory p - int n * purchased pid its))"
  using redelivery_orders [where constructEvent = constructEvent and req = req, OF assms]
    redelivery_runs_decrements [where constructEvent = constructEvent and req = req, OF assms]
    redelivery_inventory [where constructEvent = constructEvent and req = req, OF assms]
  by blast

theorem redelivery_adds_an_order_each_time_witness:
  "length (orders_for ''cs_A''
      (deliveries signed_events (replicate 2 (delivery ''A'', [])) (shop_store 5))) = 2
   \<and> inventory_of ''candle''
      (deliveries signed_events (replicate 2 (delivery ''A'', [])) (shop_store 5)) = Some 1
   \<and> inventory_of ''candle''
      (deliveries signed_events (replicate 2 (delivery ''A'', [])) (shop_store 1)) = Some (- 1)"
proof -
  let ?ev = "\<lparr> event_type = ''checkout.session.completed'',
              data_object = paid_session ''cs_A'' [order_candle 2] \<rparr>"
  have v: "signed_events (rawBody (delivery ''A'')) (stripe_signature (delivery ''A'')) = Inr ?ev"
    by (simp add: signed_events_def delivery_def)
  have t: "event_type ?ev = ''checkout.session.completed''" by simp
  have m: "parse_orderItems (session_metadata (data_object ?ev)) = Some [order_candle 2]"
    by (simp add: paid_session_def)
  note both = redelivery_adds_an_order_each_time [where constructEvent = signed_events and req = "delivery ''A''"
      and n = 2 and fs = "shop_store 5", OF v t m]
  from both have orders: "length (orders_for ''cs_A''
      (deliveries signed_events (replicate 2 (delivery ''A'', [])) (shop_store 5))) = 2"
    by (simp add: paid_session_def orders_for_def shop_store_def)
  from both have "nonnegative [order_candle 2]
      \<and> products (shop_store 5) ''candle'' = Some (candle\<lparr> inventory := 5 \<rparr>)
      \<and> int 2 * purchased ''candle'' [order_candle 2] \<le> inventory (candle\<lparr> inventory := 5 \<rparr>)
      \<longrightarrow> inventory_of ''candle''
            (deliveries signed_events (replicate 2 (delivery ''A'', [])) (shop_store 5))
          = Some (inventory (candle\<lparr> inventory := 5 \<rparr>)
                   - int 2 * purchased ''candle'' [order_candle 2])"
    by blast
  then have five: "inventory_of ''candle''
      (deliveries signed_events (replicate 2 (delivery ''A'', [])) (shop_store 5)) = Some 1"
    by (simp add: nonnegative_def purchased_def order_candle_def shop_store_def)
  from redelivery_adds_an_order_each_time [where constructEvent = signed_events
      and req = "delivery ''A''" and n = 2 and fs = "shop_store 1", OF v t m]
  have "products (deliveries signed_events (replicate 2 (delivery ''A'', [])) (shop_store 1))
          = products ((decrement_all [order_candle 2] ^^ 2) (shop_store 1))"
    by blast
  then have one: "inventory_of ''candle''
      (deliveries signed_events (replicate 2 (delivery ''A'', [])) (shop_store 1)) = Some (- 1)"
    by (simp add: inventory_of_def decrement_all_def decrement_def order_candle_def
          shop_store_def numeral_2_eq_2)
  from orders five one show ?thesis by simp
qed

text \<open>
  The same event delivered twice to a store with five candles: two orders of
  session \<open>cs_A\<close>, and the stock is down by four.
\<close>

theorem redelivery_creates_two_orders:
  "length (orders_for ''cs_A''
      (deliveries signed_events [(delivery ''A'', []), (delivery ''A'', [])] (shop_store 5))) = 2
   \<and> inventory_of ''candle''
      (deliveries signed_events [(delivery ''A'', []), (delivery ''A'', [])] (shop_store 5)) = Some 1"
  by (simp add: stripeWebhook_def signed_events_def delivery_def shop_store_def candle_def
        process_completed_def paid_session_def order_candle_def rejects_def decrement_def
        deliver_digital_def add_mail_def new_order_def orders_for_def inventory_of_def Let_def)

subsection \<open>Digital delivery\<close>

lemma url_of_cong:
  "map_option digitalFileUrl (products fs pid) = map_option digitalFileUrl (products fs' pid)
   \<Longrightarrow> url_of fs pid = url_of fs' pid"
  by (auto simp: url_of_def split: option.splits)

lemma fetch_links_nonempty:
  "fetch_links its dl fs sch = Finished dl' fs' sch'
   \<Longrightarrow> (dl' \<noteq> []) = (dl \<noteq> [] \<or> list_ex (has_url fs) its)"
proof (induction its dl fs sch rule: fetch_links.induct)
  case (1 dl fs sch)
  then show ?case by simp
next
  case (2 item rest dl fs sch)
  show ?case
  proof (cases "rejects sch")
    case True
    with "2.prems" show ?thesis by simp
  next
    case False
    show ?thesis
    proof (cases "products fs (oi_productId item)")
      case None
      with False "2.prems" "2.IH"(1) show ?thesis
        by (simp add: has_url_def url_of_def falsy_string_def)
    next
      case (Some p)
      show ?thesis
      proof (cases "digitalFileUrl p")
        case n: None
        with Some False "2.prems" "2.IH"(2) show ?thesis
          by (simp add: has_url_def url_of_def falsy_string_def)
      next
        case u: (Some url)
        show ?thesis
        proof (cases "url = []")
          case True
          with u Some False "2.prems" "2.IH"(3) show ?thesis
            by (simp add: has_url_def url_of_def falsy_string_def)
        next
          case e: False
          with u Some False "2.prems" "2.IH"(4) show ?thesis
            by (simp add: has_url_def url_of_def falsy_string_def)
        qed
      qed
    qed
  qed
qed

lemma has_download_filter:
  "has_download its fs = list_ex (has_url fs) (filter (\<lambda>i. oi_category i = ''digital'') its)"
  by (auto simp: has_download_def list_ex_iff)

lemma flagged_mark:
  "k < length (orders fs) \<Longrightarrow> flagged k (mark_delivered k fs)"
  by (simp add: flagged_def mark_delivered_def)

lemma flagged_add_mail [simp]: "flagged k (add_mail m fs) = flagged k fs"
  by (simp add: flagged_def)

lemma download_mails_add:
  "download_mails (add_mail m fs) = download_mails fs @ (if is_download m then [m] else [])"
  by (simp add: download_mails_def)

lemma download_mails_mark [simp]: "download_mails (mark_delivered k fs) = download_mails fs"
  by (simp add: download_mails_def)

lemma deliver_digital_flag:
  assumes k: "k < length (orders fs)" and fresh: "\<not> flagged k fs"
  shows "(flagged k (store_after (deliver_digital s its k fs sch))
            \<longleftrightarrow> has_download its fs
                \<and> length (download_mails (store_after (deliver_digital s its k fs sch)))
                    = Suc (length (download_mails fs))
                \<and> \<not> threw (deliver_digital s its k fs sch))
       \<and> (\<not> has_download its fs \<longrightarrow> store_after (deliver_digital s its k fs sch) = fs)"
proof -
  let ?digital = "filter (\<lambda>i. oi_category i = ''digital'') its"
  show ?thesis
  proof (cases "?digital = []")
    case True
    then have "\<not> has_download its fs" by (simp add: has_download_filter)
    with True fresh show ?thesis by (simp add: deliver_digital_def)
  next
    case False
    show ?thesis
    proof (cases "fetch_links ?digital [] fs sch")
      case (Threw fs')
      with fetch_links_Threw [OF Threw] False fresh show ?thesis
        by (simp add: deliver_digital_def)
    next
      case (Finished dl fs1 sch1)
      from fetch_links_Finished [OF Finished] have fs1: "fs1 = fs" .
      from fetch_links_nonempty [OF Finished]
      have dl: "(dl \<noteq> []) = has_download its fs" by (simp add: has_download_filter)
      show ?thesis
      proof (cases "dl = []")
        case True
        with dl Finished False fs1 fresh show ?thesis by (simp add: deliver_digital_def)
      next
        case links: False
        with dl have h: "has_download its fs" by simp
        show ?thesis
        proof (cases "rejects sch1")
          case True
          with links Finished False fs1 fresh h show ?thesis by (simp add: deliver_digital_def)
        next
          case mail_ok: False
          show ?thesis
          proof (cases "rejects (tl sch1)")
            case True
            with mail_ok links Finished False fs1 fresh h show ?thesis
              by (simp add: deliver_digital_def Let_def)
          next
            case upd_ok: False
            with mail_ok links Finished False fs1 h k show ?thesis
              by (simp add: deliver_digital_def Let_def flagged_mark download_mails_add
                    is_download_def)
          qed
        qed
      qed
    qed
  qed
qed

lemma has_download_cong:
  "(\<And>pid. map_option digitalFileUrl (products fs pid) = map_option digitalFileUrl (products fs' pid))
   \<Longrightarrow> has_download its fs = has_download its fs'"
  by (simp add: has_download_def has_url_def url_of_cong [of fs _ fs'])

text \<open>
  Claim C10, as the code has it. The order that a reconciliation creates ends
  marked \<open>digitalDelivered\<close> exactly when a digital item of the order has a
  \<open>digitalFileUrl\<close> on its product document, the download message has been
  written, and the processing has not thrown, that is, the update of the order
  that follows the message has gone through as well. When no digital item has
  a \<open>digitalFileUrl\<close>, no download message is written and the order is not
  marked.
\<close>

theorem digitalDelivered_iff:
  assumes its: "parse_orderItems (session_metadata s) = Some its"
  shows "(flagged (length (orders fs)) (store_after (process_completed s fs sch))
            \<longleftrightarrow> has_download its fs
                \<and> length (download_mails (store_after (process_completed s fs sch)))
                    = Suc (length (download_mails fs))
                \<and> \<not> threw (process_completed s fs sch))
       \<and> (\<not> has_download its fs \<longrightarrow>
             download_mails (store_after (process_completed s fs sch)) = download_mails fs
             \<and> \<not> flagged (length (orders fs)) (store_after (process_completed s fs sch)))"
proof (cases "rejects sch")
  case True
  with its show ?thesis by (simp add: process_completed_unfold flagged_def)
next
  case False
  let ?k = "length (orders fs)"
  let ?fs1 = "fs\<lparr> orders := orders fs @ [new_order s its] \<rparr>"
  let ?d = "decrement_inventory its ?fs1 (tl sch)"
  have o: "orders (store_after ?d) = orders fs @ [new_order s its]"
    and m: "mail (store_after ?d) = mail fs"
    using decrement_inventory_frame [of its ?fs1 "tl sch"] by simp_all
  have nf: "\<not> flagged ?k (store_after ?d)"
    using o by (simp add: flagged_def new_order_def)
  have dm: "download_mails (store_after ?d) = download_mails fs"
    using m by (simp add: download_mails_def)
  show ?thesis
  proof (cases ?d)
    case (Threw fs')
    with its False nf dm show ?thesis by (simp add: process_completed_unfold)
  next
    case (Finished u fs2 sch2)
    with o m nf dm have fs2: "orders fs2 = orders fs @ [new_order s its]"
      "\<not> flagged ?k fs2" "download_mails fs2 = download_mails fs" by simp_all
    show ?thesis
    proof (cases "rejects sch2")
      case True
      with its False Finished fs2 show ?thesis by (simp add: process_completed_unfold)
    next
      case mail_ok: False
      let ?fs3 = "add_mail \<lparr> mail_to = customer_email s,
                     content = Order_confirmation ?k its (amount_total s) \<rparr> fs2"
      have r: "process_completed s fs sch = deliver_digital s its ?k ?fs3 (tl sch2)"
        using its False Finished mail_ok by (simp add: process_completed_unfold)
      have k3: "?k < length (orders ?fs3)" using fs2(1) by simp
      have nf3: "\<not> flagged ?k ?fs3" using fs2(2) by simp
      have dm3: "download_mails ?fs3 = download_mails fs"
        using fs2(3) by (simp add: download_mails_add is_download_def)
      have "map_option digitalFileUrl (products ?fs3 pid) = map_option digitalFileUrl (products fs pid)" for pid
        using decrement_inventory_url [of its ?fs1 "tl sch" pid] Finished by simp
      then have hd: "has_download its ?fs3 = has_download its fs"
        by (rule has_download_cong)
      from deliver_digital_flag [OF k3 nf3, of s its "tl sch2"] r dm3 hd nf3 show ?thesis
        by auto
    qed
  qed
qed

theorem digitalDelivered_iff_witness:
  "flagged 0 (store_after (process_completed
       (paid_session ''cs_D'' [order_digital ''ebook'' ''Breathwork Guide'']) digital_store []))
   \<and> \<not> flagged 0 (store_after (process_completed
       (paid_session ''cs_E'' [order_digital ''audio'' ''Sound Bath'']) digital_store []))
   \<and> download_mails (store_after (process_completed
       (paid_session ''cs_E'' [order_digital ''audio'' ''Sound Bath'']) digital_store [])) = []"
proof -
  have a: "flagged 0 (store_after (process_completed
       (paid_session ''cs_D'' [order_digital ''ebook'' ''Breathwork Guide'']) digital_store []))"
    by (simp add: process_completed_def paid_session_def order_digital_def digital_store_def
        ebook_def audio_def rejects_def deliver_digital_def add_mail_def new_order_def
        mark_delivered_def flagged_def Let_def)
  have n: "\<not> has_download [order_digital ''audio'' ''Sound Bath''] digital_store"
    by (simp add: has_download_def has_url_def url_of_def falsy_string_def order_digital_def
          digital_store_def audio_def)
  from digitalDelivered_iff [of "paid_session ''cs_E'' [order_digital ''audio'' ''Sound Bath'']"
              "[order_digital ''audio'' ''Sound Bath'']" digital_store "[]"] n a
  show ?thesis
    by (simp add: paid_session_def digital_store_def download_mails_def)
qed

text \<open>
  An order of one e-book that has a file: the order, the confirmation, the
  product read and the download message go through, the update of the order is
  rejected. The download message is in the \<open>mail\<close> collection and the order
  is not marked.
\<close>

theorem flag_update_rejected:
  "has_download [order_digital ''ebook'' ''Breathwork Guide''] digital_store
   \<and> download_mails (store_after (process_completed
         (paid_session ''cs_D'' [order_digital ''ebook'' ''Breathwork Guide'']) digital_store
         [False, False, False, False, True]))
       = [\<lparr> mail_to = Some ''ana@example.com'',
            content = Digital_downloads [(''Breathwork Guide'', ''https://files.example/guide.pdf'')] \<rparr>]
   \<and> \<not> flagged 0 (store_after (process_completed
         (paid_session ''cs_D'' [order_digital ''ebook'' ''Breathwork Guide'']) digital_store
         [False, False, False, False, True]))"
  by (simp add: process_completed_def paid_session_def order_digital_def digital_store_def
        ebook_def audio_def rejects_def deliver_digital_def add_mail_def new_order_def
        mark_delivered_def flagged_def download_mails_def is_download_def has_download_def
        has_url_def url_of_def falsy_string_def Let_def)

end
